theory Spec2Isabelle
  imports Main
begin

section \<open>JavaScript values\<close>

text \<open>
  The SDK is TypeScript; at run time its data are JavaScript values. Everything that
  arrives from the server is the result of \<^verbatim>\<open>response.json()\<close> and is used
  without validation, so the model keeps the dynamic values: \<open>JNull\<close> is
  \<^verbatim>\<open>null\<close>, \<open>JUndefined\<close> is \<^verbatim>\<open>undefined\<close>, an object is the list of
  its own properties, in the order in which JavaScript enumerates them. The numbers of the
  model are the safe integers, those of magnitude below \<open>2 ^ 53\<close>: the SDK performs no
  arithmetic on them, and what it meets are statuses, counts and identifiers. A fraction and
  a number beyond that range have no counterpart in the model.
\<close>

datatype jsval =
    JUndefined
  | JNull
  | JBool bool
  | JNum int
  | JStr string
  | JArr "jsval list"
  | JObj "(string \<times> jsval) list"

text \<open>\<^verbatim>\<open>if (v)\<close>, \<^verbatim>\<open>!v\<close>, \<^verbatim>\<open>a || b\<close>, \<^verbatim>\<open>c ? x : y\<close>: the truthiness of a value.\<close>

fun truthy :: "jsval \<Rightarrow> bool" where
  "truthy JUndefined = False"
| "truthy JNull = False"
| "truthy (JBool b) = b"
| "truthy (JNum n) = (n \<noteq> 0)"
| "truthy (JStr s) = (s \<noteq> [])"
| "truthy (JArr xs) = True"
| "truthy (JObj kvs) = True"

text \<open>\<^verbatim>\<open>a ?? b\<close> takes \<open>b\<close> when \<open>a\<close> is \<^verbatim>\<open>null\<close> or \<^verbatim>\<open>undefined\<close>.\<close>

fun nullish :: "jsval \<Rightarrow> bool" where
  "nullish JUndefined = True"
| "nullish JNull = True"
| "nullish v = False"

subsection \<open>Conversion to strings\<close>

definition digit_char :: "nat \<Rightarrow> char" where
  "digit_char d = ''0123456789'' ! d"

function show_nat :: "nat \<Rightarrow> string" where
  "show_nat n = (if n < 10 then [digit_char n] else show_nat (n div 10) @ [digit_char (n mod 10)])"
  by pat_completeness auto
termination
  by (relation "measure (\<lambda>n. n)") auto

declare show_nat.simps [simp del]

definition show_int :: "int \<Rightarrow> string" where
  "show_int i = (if i < 0 then CHR ''-'' # show_nat (nat (- i)) else show_nat (nat i))"

fun join_strings :: "string list \<Rightarrow> string" where
  "join_strings [] = []"
| "join_strings [s] = s"
| "join_strings (s # t # ts) = s @ CHR '','' # join_strings (t # ts)"

text \<open>
  \<^verbatim>\<open>String(v)\<close> and \<^verbatim>\<open>`${v}`\<close>. An object is a plain object (the result of
  \<^verbatim>\<open>JSON.parse\<close>), whose string form is \<^verbatim>\<open>[object Object]\<close>; an array joins
  its elements with commas, \<^verbatim>\<open>null\<close> and \<^verbatim>\<open>undefined\<close> elements being empty. A
  number of the model, a safe integer, is written with its decimal digits (JavaScript writes
  an exponent only from \<open>10 ^ 21\<close> on).
\<close>

fun to_string :: "jsval \<Rightarrow> string" where
  "to_string JUndefined = ''undefined''"
| "to_string JNull = ''null''"
| "to_string (JBool b) = (if b then ''true'' else ''false'')"
| "to_string (JNum n) = show_int n"
| "to_string (JStr s) = s"
| "to_string (JArr xs) = join_strings (map (\<lambda>x. if nullish x then [] else to_string x) xs)"
| "to_string (JObj kvs) = ''[object Object]''"

subsection \<open>Exceptions\<close>

text \<open>
  \<^verbatim>\<open>MitraApiError\<close>: the fields its constructor stores. \<open>code\<close> and \<open>details\<close> are
  stored as they are given.
\<close>

record api_error =
  message :: string
  status :: nat
  code :: jsval
  details :: jsval

text \<open>
  What a JavaScript computation can throw here: the \<^verbatim>\<open>TypeError\<close> of a property read
  on \<^verbatim>\<open>null\<close> or \<^verbatim>\<open>undefined\<close>, the \<^verbatim>\<open>SyntaxError\<close> of \<^verbatim>\<open>JSON.parse\<close> and
  \<^verbatim>\<open>response.json()\<close>, the rejection of \<^verbatim>\<open>fetch\<close> when the network fails, a
  \<^verbatim>\<open>MitraApiError\<close>, what a listener throws (\<open>ListenerError\<close>, with the listener's
  number), and whatever other code outside the SDK throws (a hook, a callback, the storage).
\<close>

datatype exn =
    TypeError
  | SyntaxError
  | NetworkFailure
  | MitraApiError api_error
  | ListenerError nat
  | Thrown string

subsection \<open>Property reads and object updates\<close>

text \<open>
  \<^verbatim>\<open>v.k\<close> for the keys the SDK reads (\<^verbatim>\<open>message\<close>, \<^verbatim>\<open>error_code\<close>,
  \<^verbatim>\<open>accessToken\<close>, \<^verbatim>\<open>refreshToken\<close>, \<^verbatim>\<open>user\<close>, \<^verbatim>\<open>token\<close>): none of them is
  a property of a prototype, so a value that is not an object has none of them. Reading a
  property of \<^verbatim>\<open>null\<close> or \<^verbatim>\<open>undefined\<close> throws.
\<close>

fun get_prop :: "jsval \<Rightarrow> string \<Rightarrow> exn + jsval" where
  "get_prop JUndefined k = Inl TypeError"
| "get_prop JNull k = Inl TypeError"
| "get_prop (JObj kvs) k = Inr (case map_of kvs k of None \<Rightarrow> JUndefined | Some v \<Rightarrow> v)"
| "get_prop v k = Inr JUndefined"

text \<open>
  \<^verbatim>\<open>o[k] = v\<close> on the list of own properties: the value of an own property is replaced
  where it stands, a new property is created after the others.
\<close>

fun set_prop :: "('k \<times> 'v) list \<Rightarrow> 'k \<Rightarrow> 'v \<Rightarrow> ('k \<times> 'v) list" where
  "set_prop [] k v = [(k, v)]"
| "set_prop ((k', v') # kvs) k v = (if k' = k then (k, v) # kvs else (k', v') # set_prop kvs k v)"

text \<open>
  The order in which JavaScript enumerates the own properties of an object: first the keys
  that are array indices, in ascending order, then the other keys in the order of their
  creation. An array index is the decimal numeral, without leading zero, of a number below
  \<open>2 ^ 32 - 1\<close>.
\<close>

definition is_digit :: "char \<Rightarrow> bool" where
  "is_digit c = (c \<in> set ''0123456789'')"

definition index_value :: "string \<Rightarrow> int" where
  "index_value k = foldl (\<lambda>n c. 10 * n + (of_char c - 48)) 0 k"

definition array_index :: "string \<Rightarrow> bool" where
  "array_index k =
     (k \<noteq> [] \<and> list_all is_digit k \<and> (if hd k = CHR ''0'' then k = ''0'' else True) \<and>
      index_value k < 2 ^ 32 - 1)"

definition own_order :: "(string \<times> 'v) list \<Rightarrow> (string \<times> 'v) list" where
  "own_order kvs =
     sort_key (\<lambda>kv. index_value (fst kv)) (filter (\<lambda>kv. array_index (fst kv)) kvs) @
     filter (\<lambda>kv. \<not> array_index (fst kv)) kvs"

text \<open>The spread \<^verbatim>\<open>{...a, ...b}\<close>: a new object receives the properties of \<open>a\<close>, then
  those of \<open>b\<close>.\<close>

definition spread :: "(string \<times> 'v) list \<Rightarrow> (string \<times> 'v) list \<Rightarrow> (string \<times> 'v) list" where
  "spread a b = own_order (foldl (\<lambda>acc (k, v). set_prop acc k v) a b)"

subsection \<open>JSON texts\<close>

text \<open>
  \<^verbatim>\<open>JSON.stringify\<close> and \<^verbatim>\<open>JSON.parse\<close> belong to the platform. A text is
  represented by what it denotes: \<open>Json v\<close> is a text that parses to \<open>v\<close>, \<open>Malformed s\<close>
  is the text \<open>s\<close>, which does not parse. \<^verbatim>\<open>JSON.stringify\<close> leaves out the properties
  whose value is \<^verbatim>\<open>undefined\<close>, writes \<^verbatim>\<open>null\<close> for such an array element, and
  returns \<^verbatim>\<open>undefined\<close> for \<^verbatim>\<open>undefined\<close> itself.
\<close>

datatype jstext = Json jsval | Malformed string

fun json_norm :: "jsval \<Rightarrow> jsval" where
  "json_norm (JArr xs) = JArr (map (\<lambda>x. if x = JUndefined then JNull else json_norm x) xs)"
| "json_norm (JObj kvs) =
     JObj (map (\<lambda>kv. (fst kv, json_norm (snd kv))) (filter (\<lambda>kv. snd kv \<noteq> JUndefined) kvs))"
| "json_norm v = v"

definition JSON_stringify :: "jsval \<Rightarrow> jstext option" where
  "JSON_stringify v = (if v = JUndefined then None else Some (Json (json_norm v)))"

fun JSON_parse :: "jstext \<Rightarrow> exn + jsval" where
  "JSON_parse (Json v) = Inr v"
| "JSON_parse (Malformed s) = Inl SyntaxError"

text \<open>The truthiness of a string: only the empty string is falsy.\<close>

fun text_truthy :: "jstext \<Rightarrow> bool" where
  "text_truthy (Json v) = True"
| "text_truthy (Malformed s) = (s \<noteq> [])"

section \<open>The environment\<close>

text \<open>
  What \<^verbatim>\<open>fetch\<close> resolves to: the status of the response and the result of its
  \<^verbatim>\<open>json()\<close> (\<open>None\<close> when the body is not JSON, so that \<^verbatim>\<open>json()\<close> rejects).
  \<^verbatim>\<open>response.ok\<close> is true for the statuses 200 to 299.
\<close>

record response =
  r_status :: nat
  r_json :: "jsval option"

definition ok :: "response \<Rightarrow> bool" where
  "ok r = (200 \<le> r_status r \<and> r_status r \<le> 299)"

datatype http_method = GET | POST | PUT | DELETE | PATCH

text \<open>
  The arguments of one \<^verbatim>\<open>fetch\<close> call. \<open>url\<close> is base address and path,
  \<open>search\<close> the entries appended to the \<^verbatim>\<open>URLSearchParams\<close> (their encoding into
  the query string is the platform's), \<open>rq_body\<close> the text given as body, if any.
\<close>

record http_request =
  url :: string
  search :: "(string \<times> string) list"
  rq_method :: http_method
  rq_headers :: "(string \<times> string) list"
  rq_body :: "jstext option"

text \<open>\<^verbatim>\<open>localStorage\<close>: its items, and the kinds of access that throw (storage disabled
  or full).\<close>

datatype storage_op = GetItem | SetItem | RemoveItem

record storage =
  items :: "(string \<times> jstext) list"
  denied :: "storage_op list"

text \<open>The fields of \<^verbatim>\<open>AuthModule\<close>. \<open>refreshPromise\<close> tells whether the field holds a
  promise; a listener is identified by a number; the two clients of the module are
  determined by \<open>iamBaseUrl\<close>, the constructor's second argument. The field
  \<^verbatim>\<open>storageKey\<close> is set by the constructor from \<open>appId\<close> and never assigned again.\<close>

record auth_module =
  appId :: string
  iamBaseUrl :: string
  currentUser :: jsval
  accessToken :: jsval
  refreshToken :: jsval
  refreshPromise :: bool
  listeners :: "nat list"

text \<open>
  The world an operation runs in. \<open>network\<close> is what the network will answer: one entry
  per \<^verbatim>\<open>fetch\<close> in the order of the calls, each giving the answer to the request that
  is made (\<open>None\<close>: the call fails at the network level); past its end every call fails.
  \<open>fetched\<close> records the calls made, \<open>reported\<close> the errors given to the global error hook, \<open>console\<close> what was written
  with \<^verbatim>\<open>console.error\<close>, \<open>notified\<close> the invocations of listeners. \<open>throwing\<close>
  are the listeners whose callback throws. \<open>localStorage\<close> and \<open>window\<close> are \<open>None\<close>
  where the platform has none; \<open>window\<close> holds \<^verbatim>\<open>window.location.href\<close>.

  The operations of \<^verbatim>\<open>HttpClient\<close> and \<^verbatim>\<open>AuthModule\<close> are defined as they run
  when nothing else runs between their \<^verbatim>\<open>await\<close>s; calls of \<^verbatim>\<open>refreshSession\<close>
  that overlap are followed from \<^verbatim>\<open>await\<close> to \<^verbatim>\<open>await\<close> in a section of their
  own. A listener and the error hook do nothing to the world but being recorded, and they
  return or throw; they do not call back into the SDK.
\<close>

record world =
  network :: "(http_request \<Rightarrow> response option) list"
  fetched :: "http_request list"
  reported :: "api_error list"
  console :: "exn list"
  notified :: "(nat \<times> jsval) list"
  throwing :: "nat list"
  localStorage :: "storage option"
  window :: "string option"
  auth :: auth_module

definition fetch :: "http_request \<Rightarrow> world \<Rightarrow> response option \<times> world" where
  "fetch rq w =
     (case network w of
        [] \<Rightarrow> (None, w\<lparr>fetched := fetched w @ [rq]\<rparr>)
      | answer # rest \<Rightarrow> (answer rq, w\<lparr>network := rest, fetched := fetched w @ [rq]\<rparr>))"

section \<open>HttpClient\<close>

text \<open>
  \<^verbatim>\<open>HttpClientConfig\<close>; an optional field is an option. \<^verbatim>\<open>getToken\<close> reads the
  world, \<^verbatim>\<open>onUnauthorized\<close> runs in it and resolves to a boolean or rejects.
  \<^verbatim>\<open>onError\<close> is the caller's hook: it returns or throws.
\<close>

record HttpClientConfig =
  cfg_baseUrl :: string
  cfg_getToken :: "(world \<Rightarrow> jsval) option"
  cfg_onUnauthorized :: "(world \<Rightarrow> (exn + bool) \<times> world) option"
  cfg_onError :: "(api_error \<Rightarrow> exn option) option"
  cfg_defaultHeaders :: "(string \<times> string) list option"

record HttpClient =
  baseUrl :: string
  tokenGetter :: "world \<Rightarrow> jsval"
  onUnauthorized :: "(world \<Rightarrow> (exn + bool) \<times> world) option"
  onError :: "(api_error \<Rightarrow> exn option) option"
  defaultHeaders :: "(string \<times> string) list"

text \<open>\<^verbatim>\<open>config.baseUrl.replace(/\/$/, '')\<close>: one trailing slash is removed.\<close>

definition strip_slash :: "string \<Rightarrow> string" where
  "strip_slash s = (if s \<noteq> [] \<and> last s = CHR ''/'' then butlast s else s)"

definition new_HttpClient :: "HttpClientConfig \<Rightarrow> HttpClient" where
  "new_HttpClient config =
     \<lparr>baseUrl = strip_slash (cfg_baseUrl config),
      tokenGetter = (case cfg_getToken config of None \<Rightarrow> (\<lambda>w. JNull) | Some g \<Rightarrow> g),
      onUnauthorized = cfg_onUnauthorized config,
      onError = cfg_onError config,
      defaultHeaders = (case cfg_defaultHeaders config of None \<Rightarrow> [] | Some h \<Rightarrow> h)\<rparr>"

text \<open>\<^verbatim>\<open>RequestOptions\<close>. \<open>body\<close> is \<open>JUndefined\<close> when the caller gives none;
  \<open>isRetry\<close> is \<open>False\<close> when it is not given.\<close>

record RequestOptions =
  meth :: "http_method option"
  body :: jsval
  headers :: "(string \<times> string) list option"
  params :: "(string \<times> jsval) list option"
  isRetry :: bool

definition no_options :: RequestOptions where
  "no_options = \<lparr>meth = None, body = JUndefined, headers = None, params = None, isRetry = False\<rparr>"

text \<open>The arguments \<^verbatim>\<open>request\<close> gives to \<^verbatim>\<open>fetch\<close>: lines 394 to 426 of the
  source. \<^verbatim>\<open>Object.entries(params)\<close> are the entries in the order of enumeration.\<close>

definition fetch_args :: "HttpClient \<Rightarrow> string \<Rightarrow> RequestOptions \<Rightarrow> world \<Rightarrow> http_request" where
  "fetch_args c path options w =
     (let requestHeaders =
            spread (spread [(''Content-Type'', ''application/json'')] (defaultHeaders c))
              (case headers options of None \<Rightarrow> [] | Some h \<Rightarrow> h);
          token = tokenGetter c w
      in \<lparr>url = baseUrl c @ path,
          search =
            (case params options of
               None \<Rightarrow> []
             | Some ps \<Rightarrow>
                 map (\<lambda>kv. (fst kv, to_string (snd kv)))
                   (filter (\<lambda>kv. snd kv \<noteq> JUndefined) (own_order ps))),
          rq_method = (case meth options of None \<Rightarrow> GET | Some m \<Rightarrow> m),
          rq_headers =
            (if truthy token then set_prop requestHeaders ''Authorization'' (''Bearer '' @ to_string token)
             else requestHeaders),
          rq_body = (if truthy (body options) then JSON_stringify (body options) else None)\<rparr>)"

text \<open>
  The end of the \<^verbatim>\<open>!response.ok\<close> branch (lines 436 to 444): the body is read, a
  body that is not JSON counts as \<^verbatim>\<open>{}\<close>, the error is built, given to the hook and
  thrown. The hook's invocation is recorded in \<open>reported\<close>.
\<close>

definition throw_api_error :: "HttpClient \<Rightarrow> response \<Rightarrow> world \<Rightarrow> (exn + jsval) \<times> world" where
  "throw_api_error c resp w =
     (let errorBody = (case r_json resp of None \<Rightarrow> JObj [] | Some v \<Rightarrow> v) in
      case get_prop errorBody ''message'' of
        Inl e \<Rightarrow> (Inl e, w)
      | Inr m \<Rightarrow>
          (case get_prop errorBody ''error_code'' of
             Inl e \<Rightarrow> (Inl e, w)
           | Inr ec \<Rightarrow>
               (let error =
                      \<lparr>message =
                         to_string
                           (if truthy m then m
                            else JStr (''Request failed with status '' @ show_nat (r_status resp))),
                       status = r_status resp,
                       code = ec,
                       details = errorBody\<rparr>
                in case onError c of
                     None \<Rightarrow> (Inl (MitraApiError error), w)
                   | Some hook \<Rightarrow>
                       (case hook error of
                          Some e \<Rightarrow> (Inl e, w\<lparr>reported := reported w @ [error]\<rparr>)
                        | None \<Rightarrow>
                            (Inl (MitraApiError error), w\<lparr>reported := reported w @ [error]\<rparr>)))))"

text \<open>\<^verbatim>\<open>HttpClient.request\<close>. The result is the resolved value or the exception the
  promise rejects with.\<close>

function request :: "HttpClient \<Rightarrow> string \<Rightarrow> RequestOptions \<Rightarrow> world \<Rightarrow> (exn + jsval) \<times> world" where
  "request c path options w =
     (case fetch (fetch_args c path options w) w of
        (None, w1) \<Rightarrow> (Inl NetworkFailure, w1)
      | (Some resp, w1) \<Rightarrow>
          if \<not> ok resp then
            (if r_status resp = 401 \<and> \<not> isRetry options \<and> onUnauthorized c \<noteq> None then
               (case the (onUnauthorized c) w1 of
                  (Inl e, w2) \<Rightarrow> (Inl e, w2)
                | (Inr refreshed, w2) \<Rightarrow>
                    if refreshed then request c path (options\<lparr>isRetry := True\<rparr>) w2
                    else throw_api_error c resp w2)
             else throw_api_error c resp w1)
          else if r_status resp = 204 then (Inr JUndefined, w1)
          else (case r_json resp of None \<Rightarrow> (Inl SyntaxError, w1) | Some v \<Rightarrow> (Inr v, w1)))"
  by pat_completeness auto
termination
  by (relation "measure (\<lambda>(c, path, options, w). if isRetry options then 0 else 1)") auto

declare request.simps [simp del]

definition get :: "HttpClient \<Rightarrow> string \<Rightarrow> (string \<times> jsval) list option \<Rightarrow> world \<Rightarrow> (exn + jsval) \<times> world" where
  "get c path ps = request c path (no_options\<lparr>meth := Some GET, params := ps\<rparr>)"

definition post :: "HttpClient \<Rightarrow> string \<Rightarrow> jsval \<Rightarrow> world \<Rightarrow> (exn + jsval) \<times> world" where
  "post c path b = request c path (no_options\<lparr>meth := Some POST, body := b\<rparr>)"

definition put :: "HttpClient \<Rightarrow> string \<Rightarrow> jsval \<Rightarrow> world \<Rightarrow> (exn + jsval) \<times> world" where
  "put c path b = request c path (no_options\<lparr>meth := Some PUT, body := b\<rparr>)"

definition delete :: "HttpClient \<Rightarrow> string \<Rightarrow> (string \<times> jsval) list option \<Rightarrow> world \<Rightarrow> (exn + jsval) \<times> world" where
  "delete c path ps = request c path (no_options\<lparr>meth := Some DELETE, params := ps\<rparr>)"

section \<open>AuthModule\<close>

definition storageKey :: "auth_module \<Rightarrow> string" where
  "storageKey a = ''mitra_auth_'' @ appId a"

subsection \<open>Storage\<close>

definition getItem :: "string \<Rightarrow> storage \<Rightarrow> exn + jstext option" where
  "getItem k st = (if GetItem \<in> set (denied st) then Inl (Thrown ''localStorage'') else Inr (map_of (items st) k))"

definition setItem :: "string \<Rightarrow> jstext \<Rightarrow> storage \<Rightarrow> exn + storage" where
  "setItem k t st =
     (if SetItem \<in> set (denied st) then Inl (Thrown ''localStorage'')
      else Inr (st\<lparr>items := set_prop (items st) k t\<rparr>))"

definition removeItem :: "string \<Rightarrow> storage \<Rightarrow> exn + storage" where
  "removeItem k st =
     (if RemoveItem \<in> set (denied st) then Inl (Thrown ''localStorage'')
      else Inr (st\<lparr>items := filter (\<lambda>kv. fst kv \<noteq> k) (items st)\<rparr>))"

definition removeFromStorage :: "world \<Rightarrow> world" where
  "removeFromStorage w =
     (case localStorage w of
        None \<Rightarrow> w
      | Some st \<Rightarrow>
          (case removeItem (storageKey (auth w)) st of
             Inl e \<Rightarrow> w
           | Inr st' \<Rightarrow> w\<lparr>localStorage := Some st'\<rparr>))"

text \<open>The object that \<^verbatim>\<open>saveToStorage\<close> serializes.\<close>

definition session_record :: "auth_module \<Rightarrow> jsval" where
  "session_record a =
     JObj [(''user'', currentUser a), (''token'', accessToken a), (''refreshToken'', refreshToken a)]"

text \<open>\<^verbatim>\<open>setItem\<close> stores the string form of its argument: \<^verbatim>\<open>undefined\<close> would be
  stored as the text \<^verbatim>\<open>undefined\<close>.\<close>

definition saveToStorage :: "world \<Rightarrow> world" where
  "saveToStorage w =
     (case localStorage w of
        None \<Rightarrow> w
      | Some st \<Rightarrow>
          (case setItem (storageKey (auth w))
                  (case JSON_stringify (session_record (auth w)) of
                     None \<Rightarrow> Malformed ''undefined''
                   | Some t \<Rightarrow> t) st of
             Inl e \<Rightarrow> w
           | Inr st' \<Rightarrow> w\<lparr>localStorage := Some st'\<rparr>))"

text \<open>The \<^verbatim>\<open>try\<close> block of \<^verbatim>\<open>loadFromStorage\<close>: \<open>Inl\<close> when it throws,
  otherwise the fields to assign, if any.\<close>

definition read_stored :: "string \<Rightarrow> storage \<Rightarrow> exn + (jsval \<times> jsval \<times> jsval) option" where
  "read_stored k st =
     (case getItem k st of
        Inl e \<Rightarrow> Inl e
      | Inr None \<Rightarrow> Inr None
      | Inr (Some stored) \<Rightarrow>
          if text_truthy stored then
            (case JSON_parse stored of
               Inl e \<Rightarrow> Inl e
             | Inr parsed \<Rightarrow>
                 (case get_prop parsed ''user'' of
                    Inl e \<Rightarrow> Inl e
                  | Inr user \<Rightarrow>
                      (case get_prop parsed ''token'' of
                         Inl e \<Rightarrow> Inl e
                       | Inr token \<Rightarrow>
                           (case get_prop parsed ''refreshToken'' of
                              Inl e \<Rightarrow> Inl e
                            | Inr rt \<Rightarrow> Inr (Some (user, token, if nullish rt then JNull else rt))))))
          else Inr None)"

definition loadFromStorage :: "world \<Rightarrow> world" where
  "loadFromStorage w =
     (case localStorage w of
        None \<Rightarrow> w
      | Some st \<Rightarrow>
          (case read_stored (storageKey (auth w)) st of
             Inl e \<Rightarrow> removeFromStorage w
           | Inr None \<Rightarrow> w
           | Inr (Some (user, token, rt)) \<Rightarrow>
               w\<lparr>auth := (auth w)\<lparr>currentUser := user, accessToken := token, refreshToken := rt\<rparr>\<rparr>))"

subsection \<open>Listeners\<close>

text \<open>Calling a listener: the call is recorded; the listener throws when it is one of
  \<open>throwing\<close>.\<close>

definition call_listener :: "nat \<Rightarrow> jsval \<Rightarrow> world \<Rightarrow> exn option \<times> world" where
  "call_listener l user w =
     (if l \<in> set (throwing w) then Some (ListenerError l) else None,
      w\<lparr>notified := notified w @ [(l, user)]\<rparr>)"

text \<open>The body of the \<^verbatim>\<open>forEach\<close> of \<^verbatim>\<open>notifyListeners\<close>, with its
  \<^verbatim>\<open>try\<close> and \<^verbatim>\<open>catch\<close>.\<close>

definition notify_one :: "world \<Rightarrow> nat \<Rightarrow> world" where
  "notify_one w l =
     (case call_listener l (currentUser (auth w)) w of
        (None, w') \<Rightarrow> w'
      | (Some e, w') \<Rightarrow> w'\<lparr>console := console w' @ [e]\<rparr>)"

definition notifyListeners :: "world \<Rightarrow> world" where
  "notifyListeners w = foldl notify_one w (listeners (auth w))"

text \<open>\<^verbatim>\<open>onAuthStateChange\<close>: the listeners are a \<^verbatim>\<open>Set\<close>, which keeps the order
  of insertion and no duplicates. The result stands for the unsubscribe function, which is
  \<open>unsubscribe\<close> of the same listener.\<close>

definition onAuthStateChange :: "nat \<Rightarrow> world \<Rightarrow> (exn + unit) \<times> world" where
  "onAuthStateChange callback w =
     (let w1 = w\<lparr>auth := (auth w)\<lparr>listeners :=
                  (if callback \<in> set (listeners (auth w)) then listeners (auth w)
                   else listeners (auth w) @ [callback])\<rparr>\<rparr>
      in case call_listener callback (currentUser (auth w1)) w1 of
           (Some e, w2) \<Rightarrow> (Inl e, w2)
         | (None, w2) \<Rightarrow> (Inr (), w2))"

definition unsubscribe :: "nat \<Rightarrow> world \<Rightarrow> world" where
  "unsubscribe callback w =
     w\<lparr>auth := (auth w)\<lparr>listeners := filter (\<lambda>l. l \<noteq> callback) (listeners (auth w))\<rparr>\<rparr>"

subsection \<open>Session state\<close>

definition setAuthState :: "jsval \<Rightarrow> jsval \<Rightarrow> jsval \<Rightarrow> world \<Rightarrow> world" where
  "setAuthState user token rt w =
     notifyListeners (saveToStorage
       (w\<lparr>auth := (auth w)\<lparr>currentUser := user, accessToken := token, refreshToken := rt\<rparr>\<rparr>))"

definition clearAuthState :: "world \<Rightarrow> world" where
  "clearAuthState w =
     notifyListeners (removeFromStorage
       (w\<lparr>auth := (auth w)\<lparr>currentUser := JNull, accessToken := JNull, refreshToken := JNull\<rparr>\<rparr>))"

definition isAuthenticated :: "world \<Rightarrow> bool" where
  "isAuthenticated w = (currentUser (auth w) \<noteq> JNull \<and> accessToken (auth w) \<noteq> JNull)"

subsection \<open>The two clients and the constructor\<close>

definition publicClient :: "auth_module \<Rightarrow> HttpClient" where
  "publicClient a =
     new_HttpClient
       \<lparr>cfg_baseUrl = iamBaseUrl a, cfg_getToken = Some (\<lambda>w. JNull), cfg_onUnauthorized = None,
        cfg_onError = None, cfg_defaultHeaders = None\<rparr>"

definition authedClient :: "auth_module \<Rightarrow> HttpClient" where
  "authedClient a =
     new_HttpClient
       \<lparr>cfg_baseUrl = iamBaseUrl a, cfg_getToken = Some (\<lambda>w. accessToken (auth w)),
        cfg_onUnauthorized = None, cfg_onError = None, cfg_defaultHeaders = None\<rparr>"

definition new_AuthModule :: "string \<Rightarrow> string \<Rightarrow> world \<Rightarrow> world" where
  "new_AuthModule app iam w =
     loadFromStorage
       (w\<lparr>auth :=
            \<lparr>appId = app, iamBaseUrl = iam,
             currentUser = JNull, accessToken = JNull, refreshToken = JNull,
             refreshPromise = False, listeners = []\<rparr>\<rparr>)"

subsection \<open>Operations\<close>

record SignInCredentials =
  email :: string
  password :: string

record SignUpData = SignInCredentials +
  name :: "string option"

definition credentials_json :: "SignInCredentials \<Rightarrow> jsval" where
  "credentials_json c = JObj [(''email'', JStr (email c)), (''password'', JStr (password c))]"

text \<open>\<^verbatim>\<open>{...data, appId: this.appId}\<close>.\<close>

definition register_json :: "SignUpData \<Rightarrow> string \<Rightarrow> jsval" where
  "register_json d app =
     JObj (set_prop
       ([(''email'', JStr (email d)), (''password'', JStr (password d))] @
        (case name d of None \<Rightarrow> [] | Some n \<Rightarrow> [(''name'', JStr n)]))
       ''appId'' (JStr app))"

text \<open>
  The part that \<^verbatim>\<open>signIn\<close> and \<^verbatim>\<open>doRefresh\<close> share, from the token response
  on: the two tokens are assigned, the user is fetched with the new access token, and
  \<^verbatim>\<open>setAuthState\<close> commits. The result is the user.
\<close>

definition install_tokens :: "jsval \<Rightarrow> world \<Rightarrow> (exn + jsval) \<times> world" where
  "install_tokens tokenResponse w =
     (case get_prop tokenResponse ''accessToken'' of
        Inl e \<Rightarrow> (Inl e, w)
      | Inr token \<Rightarrow>
          (let w1 = w\<lparr>auth := (auth w)\<lparr>accessToken := token\<rparr>\<rparr> in
           case get_prop tokenResponse ''refreshToken'' of
             Inl e \<Rightarrow> (Inl e, w1)
           | Inr rt \<Rightarrow>
               (let w2 = w1\<lparr>auth := (auth w1)\<lparr>refreshToken := rt\<rparr>\<rparr> in
                case get (authedClient (auth w2)) ''/api/v1/auth/me'' None w2 of
                  (Inl e, w3) \<Rightarrow> (Inl e, w3)
                | (Inr user, w3) \<Rightarrow> (Inr user, setAuthState user token rt w3))))"

definition signIn :: "SignInCredentials \<Rightarrow> world \<Rightarrow> (exn + jsval) \<times> world" where
  "signIn credentials w =
     (case post (publicClient (auth w)) ''/api/v1/auth/tokens'' (credentials_json credentials) w of
        (Inl e, w1) \<Rightarrow> (Inl e, w1)
      | (Inr tokenResponse, w1) \<Rightarrow> install_tokens tokenResponse w1)"

definition signUp :: "SignUpData \<Rightarrow> world \<Rightarrow> (exn + jsval) \<times> world" where
  "signUp d w =
     (case post (publicClient (auth w)) ''/api/v1/auth/users/register''
             (register_json d (appId (auth w))) w of
        (Inl e, w1) \<Rightarrow> (Inl e, w1)
      | (Inr registered, w1) \<Rightarrow> signIn \<lparr>email = email d, password = password d\<rparr> w1)"

definition signOut :: "string option \<Rightarrow> world \<Rightarrow> world" where
  "signOut redirectUrl w =
     (let w1 = clearAuthState w in
      case (window w1, redirectUrl) of
        (Some href, Some target) \<Rightarrow> if target \<noteq> [] then w1\<lparr>window := Some target\<rparr> else w1
      | other \<Rightarrow> w1)"

text \<open>\<^verbatim>\<open>doRefresh\<close>: whatever the \<^verbatim>\<open>try\<close> block throws is caught.\<close>

definition doRefresh :: "world \<Rightarrow> bool \<times> world" where
  "doRefresh w =
     (case (case post (publicClient (auth w)) ''/api/v1/auth/tokens/refresh''
                   (JObj [(''refreshToken'', refreshToken (auth w))]) w of
              (Inl e, w1) \<Rightarrow> (Inl e, w1)
            | (Inr tokenResponse, w1) \<Rightarrow> install_tokens tokenResponse w1) of
        (Inl e, w2) \<Rightarrow> (False, clearAuthState w2)
      | (Inr user, w2) \<Rightarrow> (True, w2))"

text \<open>
  \<^verbatim>\<open>refreshSession\<close>, run to its end. A call either settles with a boolean or, when
  \<open>refreshPromise\<close> already holds a promise, returns that promise (\<open>Pending\<close>); what
  the promise resolves to is told where the calls that overlap are followed.
\<close>

datatype refresh_result = Settled bool | Pending

definition refreshSession :: "world \<Rightarrow> refresh_result \<times> world" where
  "refreshSession w =
     (if \<not> truthy (refreshToken (auth w)) then (Settled False, w)
      else if refreshPromise (auth w) then (Pending, w)
      else
        (case doRefresh (w\<lparr>auth := (auth w)\<lparr>refreshPromise := True\<rparr>\<rparr>) of
           (b, w1) \<Rightarrow> (Settled b, w1\<lparr>auth := (auth w1)\<lparr>refreshPromise := False\<rparr>\<rparr>)))"

definition me :: "world \<Rightarrow> jsval \<times> world" where
  "me w =
     (if \<not> truthy (accessToken (auth w)) then (JNull, w)
      else
        (case get (authedClient (auth w)) ''/api/v1/auth/me'' None w of
           (Inr user, w1) \<Rightarrow>
             (user, notifyListeners (saveToStorage (w1\<lparr>auth := (auth w1)\<lparr>currentUser := user\<rparr>\<rparr>)))
         | (Inl (MitraApiError error), w1) \<Rightarrow>
             if status error = 401 then (JNull, clearAuthState w1) else (JNull, w1)
         | (Inl e, w1) \<Rightarrow> (JNull, w1)))"

definition checkAuth :: "world \<Rightarrow> bool \<times> world" where
  "checkAuth w = (case me w of (user, w1) \<Rightarrow> (user \<noteq> JNull, w1))"

definition setToken :: "string \<Rightarrow> bool \<Rightarrow> world \<Rightarrow> world" where
  "setToken token save w =
     (let w1 = w\<lparr>auth := (auth w)\<lparr>accessToken := JStr token\<rparr>\<rparr> in
      if save then saveToStorage w1 else w1)"

section \<open>Notions used by the properties\<close>

text \<open>What \<^verbatim>\<open>request\<close> resolves with when the network gives this answer and no
  callback interferes: nothing for a failed call and for a status outside 200 to 299,
  \<^verbatim>\<open>undefined\<close> for 204, otherwise the parsed body.\<close>

definition resolved :: "response option \<Rightarrow> jsval option" where
  "resolved answer =
     (case answer of
        None \<Rightarrow> None
      | Some resp \<Rightarrow>
          if \<not> ok resp then None
          else if r_status resp = 204 then Some JUndefined
          else r_json resp)"

text \<open>A value that JSON can carry: \<^verbatim>\<open>undefined\<close> occurs nowhere in it.\<close>

fun is_json :: "jsval \<Rightarrow> bool" where
  "is_json JUndefined = False"
| "is_json (JArr xs) = list_all is_json xs"
| "is_json (JObj kvs) = list_all (\<lambda>kv. is_json (snd kv)) kvs"
| "is_json v = True"

text \<open>The public operations of the Session Store, each run to its end. \<open>Reload\<close> is the
  construction of a new \<^verbatim>\<open>AuthModule\<close> for the same application over the same storage.
  \<open>step\<close> also tells whether the operation completed without throwing.\<close>

datatype operation =
    SignIn SignInCredentials
  | SignUp SignUpData
  | SignOut "string option"
  | RefreshSession
  | Me
  | SetToken string bool
  | Reload

fun step :: "operation \<Rightarrow> world \<Rightarrow> bool \<times> world" where
  "step (SignIn c) w = (case signIn c w of (Inl e, w') \<Rightarrow> (False, w') | (Inr user, w') \<Rightarrow> (True, w'))"
| "step (SignUp d) w = (case signUp d w of (Inl e, w') \<Rightarrow> (False, w') | (Inr user, w') \<Rightarrow> (True, w'))"
| "step (SignOut redirectUrl) w = (True, signOut redirectUrl w)"
| "step RefreshSession w = (True, snd (refreshSession w))"
| "step Me w = (True, snd (me w))"
| "step (SetToken token save) w = (True, setToken token save w)"
| "step Reload w = (True, new_AuthModule (appId (auth w)) (iamBaseUrl (auth w)) w)"

definition run :: "operation list \<Rightarrow> world \<Rightarrow> world" where
  "run ops w = foldl (\<lambda>w' op. snd (step op w')) w ops"








text \<open>
  The API Error that \<^verbatim>\<open>request\<close> builds from an error response, as the specification
  describes it: the message is the body's \<^verbatim>\<open>message\<close> when that is truthy and the
  fallback with the status otherwise, the code is the body's \<^verbatim>\<open>error_code\<close>, the details
  are the parsed body, or \<^verbatim>\<open>{}\<close> when the body is not JSON. \<open>prop_of\<close> reads a property
  where that does not throw.
\<close>

definition prop_of :: "jsval \<Rightarrow> string \<Rightarrow> jsval" where
  "prop_of v k = (case get_prop v k of Inl e \<Rightarrow> JUndefined | Inr x \<Rightarrow> x)"

definition api_error_of :: "response \<Rightarrow> api_error" where
  "api_error_of resp =
     (let errorBody = (case r_json resp of None \<Rightarrow> JObj [] | Some v \<Rightarrow> v) in
      \<lparr>message =
         (if truthy (prop_of errorBody ''message'') then to_string (prop_of errorBody ''message'')
          else ''Request failed with status '' @ show_nat (r_status resp)),
       status = r_status resp,
       code = prop_of errorBody ''error_code'',
       details = errorBody\<rparr>)"

text \<open>The calls that \<^verbatim>\<open>me\<close> and \<^verbatim>\<open>signIn\<close> make first.\<close>

definition me_request :: "world \<Rightarrow> http_request" where
  "me_request w =
     fetch_args (authedClient (auth w)) ''/api/v1/auth/me'' (no_options\<lparr>meth := Some GET, params := None\<rparr>) w"

definition signIn_request :: "SignInCredentials \<Rightarrow> world \<Rightarrow> http_request" where
  "signIn_request credentials w =
     fetch_args (publicClient (auth w)) ''/api/v1/auth/tokens''
       (no_options\<lparr>meth := Some POST, body := credentials_json credentials\<rparr>) w"

subsection \<open>Example worlds\<close>

definition answer_with :: "nat \<Rightarrow> jsval option \<Rightarrow> http_request \<Rightarrow> response option" where
  "answer_with s j rq = Some \<lparr>r_status = s, r_json = j\<rparr>"

definition example_user :: jsval where
  "example_user =
     JObj [(''id'', JStr ''u1''), (''tenantId'', JStr ''org1''), (''email'', JStr ''a@b.com''), (''name'', JNull)]"

definition example_tokens :: jsval where
  "example_tokens =
     JObj [(''accessToken'', JStr ''t1''), (''refreshToken'', JStr ''r1''), (''tokenType'', JStr ''Bearer'')]"

definition empty_world :: world where
  "empty_world =
     \<lparr>network = [], fetched = [], reported = [], console = [], notified = [], throwing = [],
      localStorage = Some \<lparr>items = [], denied = []\<rparr>, window = None,
      auth = \<lparr>appId = [], iamBaseUrl = [], currentUser = JNull, accessToken = JNull,
              refreshToken = JNull, refreshPromise = False, listeners = []\<rparr>\<rparr>"

text \<open>A module constructed over an empty storage, and the same after the sign-in of the
  specification's example scenario.\<close>

definition fresh_world :: world where
  "fresh_world = new_AuthModule ''app'' ''https://api.example/iam'' empty_world"

definition signed_in_world :: world where
  "signed_in_world =
     snd (signIn \<lparr>email = ''a@b.com'', password = ''pw''\<rparr>
       (fresh_world\<lparr>network := [answer_with 200 (Some example_tokens), answer_with 200 (Some example_user)]\<rparr>))"

text \<open>The signed-in module facing a network that answers a refresh, and the fresh module
  facing one that answers a sign-in and a fetch of the current user.\<close>

definition refreshing_world :: world where
  "refreshing_world =
     signed_in_world\<lparr>network := [answer_with 200 (Some example_tokens), answer_with 200 (Some example_user)]\<rparr>"


text \<open>Two clients without \<^verbatim>\<open>onUnauthorized\<close>, the second with a global error hook
  that returns.\<close>

definition bare_client :: HttpClient where
  "bare_client =
     new_HttpClient
       \<lparr>cfg_baseUrl = ''https://api.example/data-manager'', cfg_getToken = None,
        cfg_onUnauthorized = None, cfg_onError = None, cfg_defaultHeaders = None\<rparr>"

definition hooked_client :: HttpClient where
  "hooked_client =
     new_HttpClient
       \<lparr>cfg_baseUrl = ''https://api.example/data-manager'', cfg_getToken = None,
        cfg_onUnauthorized = None, cfg_onError = Some (\<lambda>error. None), cfg_defaultHeaders = None\<rparr>"

text \<open>A client whose \<^verbatim>\<open>onUnauthorized\<close> resolves true and changes nothing.\<close>

definition retrying_client :: HttpClient where
  "retrying_client =
     new_HttpClient
       \<lparr>cfg_baseUrl = ''https://api.example/data-manager/'', cfg_getToken = None,
        cfg_onUnauthorized = Some (\<lambda>w. (Inr True, w)), cfg_onError = None,
        cfg_defaultHeaders = Some [(''X-App-Id'', ''app'')]\<rparr>"

definition item_not_found :: jsval where
  "item_not_found = JObj [(''message'', JStr ''Task not found''), (''error_code'', JStr ''ENTITY_NOT_FOUND'')]"

section \<open>Calls of refreshSession that overlap\<close>

text \<open>
  \<^verbatim>\<open>refreshSession\<close> and \<^verbatim>\<open>doRefresh\<close> are \<^verbatim>\<open>async\<close>: between two of their
  \<^verbatim>\<open>await\<close>s other code of the page runs, in particular other calls of
  \<^verbatim>\<open>refreshSession\<close>. This section follows them from one \<^verbatim>\<open>await\<close> to the next.

  The promise of one activation of \<^verbatim>\<open>doRefresh\<close>. It is never rejected, because
  \<^verbatim>\<open>doRefresh\<close> catches whatever its \<^verbatim>\<open>try\<close> block throws.
\<close>

datatype promise = Unsettled | Fulfilled bool

text \<open>
  Where an activation of \<^verbatim>\<open>doRefresh\<close> is suspended: at the \<^verbatim>\<open>await\<close> of the call
  to the refresh endpoint (line 339), or at the \<^verbatim>\<open>await\<close> of the fetch of the current user
  (line 347), where it holds \<^verbatim>\<open>tokenResponse.accessToken\<close> and
  \<^verbatim>\<open>tokenResponse.refreshToken\<close>.
\<close>

datatype suspension = AtTokens | AtUser jsval jsval

text \<open>
  The state of the page. \<open>now\<close> is the world; \<open>promises\<close> are the promises of the
  activations of \<^verbatim>\<open>doRefresh\<close> made so far, an activation being named by the position of
  its promise; \<open>marked\<close> is the promise that \<^verbatim>\<open>this.refreshPromise\<close> holds when it is
  not \<^verbatim>\<open>null\<close> (whether it is \<^verbatim>\<open>null\<close> is the field \<open>refreshPromise\<close> of the
  module); \<open>running\<close> are the suspended activations of \<^verbatim>\<open>doRefresh\<close>; \<open>awaiting\<close>
  are the callers of \<^verbatim>\<open>refreshSession\<close> that wait for a promise, each with the
  promise and with whether the caller is suspended at the \<^verbatim>\<open>await\<close> of line 218 (it is
  the caller that started the activation) or was handed the promise at line 214;
  \<open>returned\<close> are the callers that have their result, each with the promise it waited for, if
  any, and the boolean it received.
\<close>

record loop =
  now :: world
  marked :: nat
  promises :: "promise list"
  running :: "(nat \<times> suspension) list"
  awaiting :: "(nat \<times> nat \<times> bool) list"
  returned :: "(nat \<times> nat option \<times> bool) list"

text \<open>
  What happens on the page: a caller calls \<^verbatim>\<open>refreshSession\<close>; the network answers
  the call on which an activation of \<^verbatim>\<open>doRefresh\<close> waits; a caller that waits for a
  promise is resumed; and, of the other operations of the module, the two synchronous ones,
  \<^verbatim>\<open>signOut\<close> and \<^verbatim>\<open>setToken\<close>, run.
\<close>

datatype event =
    Call nat
  | Reply nat "response option"
  | Resume nat
  | SignOutNow
  | SetTokenNow string bool

text \<open>The call that \<^verbatim>\<open>doRefresh\<close> makes first, and the world after \<^verbatim>\<open>fetch\<close> has
  been called with a request and before it is answered.\<close>

definition refresh_request :: "world \<Rightarrow> http_request" where
  "refresh_request w =
     fetch_args (publicClient (auth w)) ''/api/v1/auth/tokens/refresh''
       (no_options\<lparr>meth := Some POST, body := JObj [(''refreshToken'', refreshToken (auth w))]\<rparr>) w"

definition sent :: "http_request \<Rightarrow> world \<Rightarrow> world" where
  "sent rq w = w\<lparr>fetched := fetched w @ [rq]\<rparr>"

text \<open>The end of an activation of \<^verbatim>\<open>doRefresh\<close>: its promise is fulfilled. \<open>caught\<close>
  is the end through the \<^verbatim>\<open>catch\<close> block.\<close>

definition settle :: "nat \<Rightarrow> bool \<Rightarrow> loop \<Rightarrow> loop" where
  "settle k b s =
     s\<lparr>promises := (promises s)[k := Fulfilled b], running := filter (\<lambda>r. fst r \<noteq> k) (running s)\<rparr>"

definition caught :: "nat \<Rightarrow> loop \<Rightarrow> loop" where
  "caught k s = settle k False (s\<lparr>now := clearAuthState (now s)\<rparr>)"

text \<open>
  One event.

  \<open>Call i\<close> runs \<^verbatim>\<open>refreshSession\<close> to its first \<^verbatim>\<open>await\<close> or
  \<^verbatim>\<open>return\<close>. Without a refresh token the caller has false (line 212). When
  \<^verbatim>\<open>this.refreshPromise\<close> is not \<^verbatim>\<open>null\<close> the caller is handed that promise (line
  214). Otherwise \<^verbatim>\<open>doRefresh\<close> is called (line 216): it runs to its first
  \<^verbatim>\<open>await\<close>, that is, \<^verbatim>\<open>request\<close> builds the call with the refresh token and gives
  it to \<^verbatim>\<open>fetch\<close>, which happens before \<^verbatim>\<open>request\<close> awaits anything; the promise
  of the activation is assigned to \<^verbatim>\<open>this.refreshPromise\<close> and the caller awaits it.

  \<open>Reply k answer\<close> resumes the activation \<open>k\<close> of \<^verbatim>\<open>doRefresh\<close> with the answer
  to the call it waits on. \<^verbatim>\<open>request\<close> resolves or rejects as \<open>resolved\<close> says: the
  clients of the module have no callback. After the first call the activation reads the two
  tokens off the response, assigns them and makes the second call (lines 344 to 347); after
  the second it commits (line 349). Whatever is thrown ends it in the \<^verbatim>\<open>catch\<close> block
  (line 352).

  \<open>Resume i\<close> resumes a caller whose promise is fulfilled: the caller has the value of
  the promise, and the caller suspended at line 218 first runs the \<^verbatim>\<open>finally\<close> block,
  which assigns \<^verbatim>\<open>null\<close> to \<^verbatim>\<open>this.refreshPromise\<close> (line 220).
\<close>

fun react :: "event \<Rightarrow> loop \<Rightarrow> loop" where
  "react (Call i) s =
     (if \<not> truthy (refreshToken (auth (now s))) then s\<lparr>returned := returned s @ [(i, None, False)]\<rparr>
      else if refreshPromise (auth (now s)) then s\<lparr>awaiting := awaiting s @ [(i, marked s, False)]\<rparr>
      else
        s\<lparr>now := (sent (refresh_request (now s)) (now s))
                   \<lparr>auth := (auth (now s))\<lparr>refreshPromise := True\<rparr>\<rparr>,
          marked := length (promises s),
          promises := promises s @ [Unsettled],
          running := running s @ [(length (promises s), AtTokens)],
          awaiting := awaiting s @ [(i, length (promises s), True)]\<rparr>)"
| "react (Reply k answer) s =
     (case map_of (running s) k of
        None \<Rightarrow> s
      | Some AtTokens \<Rightarrow>
          (case resolved answer of
             None \<Rightarrow> caught k s
           | Some tokenResponse \<Rightarrow>
               (case get_prop tokenResponse ''accessToken'' of
                  Inl e \<Rightarrow> caught k s
                | Inr token \<Rightarrow>
                    (case get_prop tokenResponse ''refreshToken'' of
                       Inl e \<Rightarrow> caught k (s\<lparr>now := (now s)\<lparr>auth := (auth (now s))\<lparr>accessToken := token\<rparr>\<rparr>\<rparr>)
                     | Inr rt \<Rightarrow>
                         (let w2 = (now s)\<lparr>auth := (auth (now s))\<lparr>accessToken := token, refreshToken := rt\<rparr>\<rparr>
                          in s\<lparr>now := sent (me_request w2) w2,
                               running := map (\<lambda>r. if fst r = k then (k, AtUser token rt) else r) (running s)\<rparr>))))
      | Some (AtUser token rt) \<Rightarrow>
          (case resolved answer of
             None \<Rightarrow> caught k s
           | Some user \<Rightarrow> settle k True (s\<lparr>now := setAuthState user token rt (now s)\<rparr>)))"
| "react (Resume i) s =
     (case find (\<lambda>a. fst a = i) (awaiting s) of
        None \<Rightarrow> s
      | Some (j, k, owner) \<Rightarrow>
          (if k < length (promises s) then
             (case promises s ! k of
                Unsettled \<Rightarrow> s
              | Fulfilled b \<Rightarrow>
                  s\<lparr>awaiting := remove1 (j, k, owner) (awaiting s),
                    returned := returned s @ [(i, Some k, b)],
                    now := (if owner then (now s)\<lparr>auth := (auth (now s))\<lparr>refreshPromise := False\<rparr>\<rparr>
                            else now s)\<rparr>)
           else s))"
| "react SignOutNow s = s\<lparr>now := signOut None (now s)\<rparr>"
| "react (SetTokenNow token save) s = s\<lparr>now := setToken token save (now s)\<rparr>"

text \<open>A page on which nothing has been called yet, and the run of a list of events.\<close>

definition start :: "world \<Rightarrow> loop" where
  "start w = \<lparr>now = w, marked = 0, promises = [], running = [], awaiting = [], returned = []\<rparr>"

definition exec :: "event list \<Rightarrow> loop \<Rightarrow> loop" where
  "exec es s = foldl (\<lambda>s' e. react e s') s es"

text \<open>The number of calls made to the refresh endpoint.\<close>

definition refresh_calls :: "world \<Rightarrow> nat" where
  "refresh_calls w =
     length (filter (\<lambda>rq. url rq = strip_slash (iamBaseUrl (auth w)) @ ''/api/v1/auth/tokens/refresh'')
       (fetched w))"

text \<open>
  What holds of the page after every event. A suspended activation of \<^verbatim>\<open>doRefresh\<close> is
  the one whose promise \<^verbatim>\<open>this.refreshPromise\<close> holds, and its promise is not settled;
  a caller that has returned with a promise received the value of that promise, and one that
  returned without received false; a caller that waits, waits for a promise that exists, and
  the one suspended at line 218 waits for the promise that \<^verbatim>\<open>this.refreshPromise\<close> holds.
\<close>

definition running_ok :: "nat \<Rightarrow> bool \<Rightarrow> promise list \<Rightarrow> nat \<times> suspension \<Rightarrow> bool" where
  "running_ok m marker ps r = (fst r = m \<and> marker \<and> fst r < length ps \<and> ps ! fst r = Unsettled)"

definition returned_ok :: "promise list \<Rightarrow> nat \<times> nat option \<times> bool \<Rightarrow> bool" where
  "returned_ok ps r =
     (case fst (snd r) of
        None \<Rightarrow> \<not> snd (snd r)
      | Some k \<Rightarrow> k < length ps \<and> ps ! k = Fulfilled (snd (snd r)))"

definition awaiting_ok :: "nat \<Rightarrow> bool \<Rightarrow> promise list \<Rightarrow> nat \<times> nat \<times> bool \<Rightarrow> bool" where
  "awaiting_ok m marker ps a =
     (fst (snd a) < length ps \<and> (if snd (snd a) then marker \<and> m = fst (snd a) else True))"

definition single_flight :: "nat \<Rightarrow> loop \<Rightarrow> bool" where
  "single_flight c s =
     (list_all (running_ok (marked s) (refreshPromise (auth (now s))) (promises s)) (running s) \<and>
      length (running s) \<le> 1 \<and>
      (\<forall>k < length (promises s). promises s ! k = Unsettled \<longrightarrow> k \<in> fst ` set (running s)) \<and>
      list_all (returned_ok (promises s)) (returned s) \<and>
      refresh_calls (now s) = c + length (promises s) \<and>
      list_all (awaiting_ok (marked s) (refreshPromise (auth (now s))) (promises s)) (awaiting s) \<and>
      length (filter (\<lambda>a. snd (snd a)) (awaiting s)) \<le> 1 \<and>
      (if refreshPromise (auth (now s)) then marked s < length (promises s) else True))"

text \<open>The two answers of a server to a refresh that succeeds.\<close>

definition tokens_reply :: "response option" where
  "tokens_reply = Some \<lparr>r_status = 200, r_json = Some example_tokens\<rparr>"

definition user_reply :: "response option" where
  "user_reply = Some \<lparr>r_status = 200, r_json = Some example_user\<rparr>"

section \<open>Properties of HttpClient.request\<close>

subsection \<open>The body of the request\<close>

lemma fetch_args_falsy_body:
  "\<not> truthy (body options) \<Longrightarrow>
   fetch_args c path options w = fetch_args c path (options\<lparr>body := JUndefined\<rparr>) w"
  by (simp add: fetch_args_def)

lemma rq_body_fetch_args:
  "rq_body (fetch_args c path options w) =
     (if truthy (body options) then JSON_stringify (body options) else None)"
  by (simp add: fetch_args_def Let_def)

lemma request_falsy_body_eq:
  "\<not> truthy (body options) \<Longrightarrow>
   request c path options w = request c path (options\<lparr>body := JUndefined\<rparr>) w"
proof (induction c path options w rule: request.induct)
  case (1 c path options w)
  have swap: "options\<lparr>body := JUndefined, isRetry := True\<rparr> = options\<lparr>isRetry := True, body := JUndefined\<rparr>"
    by simp
  show ?case
    apply (subst request.simps)
    apply (subst (2) request.simps)
    apply (simp only: fetch_args_falsy_body [OF "1.prems", symmetric])
    using "1.IH" "1.prems"
    apply (auto split: prod.splits option.splits sum.splits simp: swap)
    done
qed

subsection \<open>Requests of a client without callback\<close>

lemma request_without_callback:
  "onUnauthorized c = None \<Longrightarrow>
   request c path options w =
     (case fetch (fetch_args c path options w) w of
        (None, w1) \<Rightarrow> (Inl NetworkFailure, w1)
      | (Some resp, w1) \<Rightarrow>
          if \<not> ok resp then throw_api_error c resp w1
          else if r_status resp = 204 then (Inr JUndefined, w1)
          else (case r_json resp of None \<Rightarrow> (Inl SyntaxError, w1) | Some v \<Rightarrow> (Inr v, w1)))"
  by (subst request.simps) (simp split: prod.splits option.splits)

lemma throw_api_error_without_hook:
  "onError c = None \<Longrightarrow> snd (throw_api_error c resp w) = w"
  by (simp add: throw_api_error_def Let_def split: sum.splits)

lemma throw_api_error_throws: "\<exists>e. fst (throw_api_error c resp w) = Inl e"
  by (simp add: throw_api_error_def Let_def split: sum.splits option.splits)

lemma snd_fetch: "snd (fetch rq w) = w\<lparr>network := tl (network w), fetched := fetched w @ [rq]\<rparr>"
  by (cases "network w") (simp_all add: fetch_def)

lemma fst_fetch: "fst (fetch rq w) = (case network w of [] \<Rightarrow> None | answer # rest \<Rightarrow> answer rq)"
  by (cases "network w") (simp_all add: fetch_def)

lemma request_plain_world:
  "onUnauthorized c = None \<Longrightarrow> onError c = None \<Longrightarrow>
   snd (request c path options w) = snd (fetch (fetch_args c path options w) w)"
  by (auto simp add: request_without_callback throw_api_error_without_hook split: prod.splits option.splits)

lemma plain_request_resolves:
  assumes "onUnauthorized c = None"
  shows "fst (request c path options w) = Inr v \<longleftrightarrow>
         resolved (fst (fetch (fetch_args c path options w) w)) = Some v"
proof -
  obtain answer w1 where f: "fetch (fetch_args c path options w) w = (answer, w1)"
    by (cases "fetch (fetch_args c path options w) w")
  show ?thesis
  proof (cases answer)
    case None
    with f assms show ?thesis by (simp add: request_without_callback resolved_def)
  next
    case (Some resp)
    obtain e where "fst (throw_api_error c resp w1) = Inl e"
      using throw_api_error_throws by blast
    with f Some assms show ?thesis
      by (auto simp add: request_without_callback resolved_def split: option.splits)
  qed
qed

lemma resolved_fetch_Some:
  assumes "resolved (fst (fetch rq w)) = Some v"
  shows "\<exists>answer rest. network w = answer # rest \<and> resolved (answer rq) = Some v \<and>
           network (snd (fetch rq w)) = rest"
  using assms by (cases "network w") (simp_all add: fetch_def resolved_def)

lemma get_prop_defined: "\<not> nullish v \<Longrightarrow> get_prop v k = Inr (prop_of v k)"
  by (cases v) (simp_all add: prop_of_def)

lemma throw_api_error_value:
  assumes "r_json resp \<noteq> Some JNull" and "r_json resp \<noteq> Some JUndefined"
  shows "throw_api_error c resp w =
           (case onError c of
              None \<Rightarrow> (Inl (MitraApiError (api_error_of resp)), w)
            | Some hook \<Rightarrow>
                (case hook (api_error_of resp) of
                   Some e \<Rightarrow> (Inl e, w\<lparr>reported := reported w @ [api_error_of resp]\<rparr>)
                 | None \<Rightarrow>
                     (Inl (MitraApiError (api_error_of resp)),
                      w\<lparr>reported := reported w @ [api_error_of resp]\<rparr>)))"
proof -
  define errorBody where "errorBody = (case r_json resp of None \<Rightarrow> JObj [] | Some v \<Rightarrow> v)"
  have "\<not> nullish errorBody"
    using assms by (cases "r_json resp"; cases "the (r_json resp)") (simp_all add: errorBody_def)
  then have "get_prop errorBody ''message'' = Inr (prop_of errorBody ''message'')"
    "get_prop errorBody ''error_code'' = Inr (prop_of errorBody ''error_code'')"
    by (simp_all add: get_prop_defined)
  then show ?thesis
    unfolding throw_api_error_def api_error_of_def errorBody_def [symmetric] Let_def
    by (auto split: option.splits)
qed

lemma fetched_throw_api_error: "fetched (snd (throw_api_error c resp w)) = fetched w"
  by (simp add: throw_api_error_def Let_def split: sum.splits option.splits)

lemma request_on_retry:
  "isRetry options \<Longrightarrow>
   request c path options w =
     (case fetch (fetch_args c path options w) w of
        (None, w1) \<Rightarrow> (Inl NetworkFailure, w1)
      | (Some resp, w1) \<Rightarrow>
          if \<not> ok resp then throw_api_error c resp w1
          else if r_status resp = 204 then (Inr JUndefined, w1)
          else (case r_json resp of None \<Rightarrow> (Inl SyntaxError, w1) | Some v \<Rightarrow> (Inr v, w1)))"
  by (subst request.simps) (simp split: prod.splits option.splits)

lemma fetched_request_on_retry:
  assumes "isRetry options"
  shows "fetched (snd (request c path options w)) = fetched w @ [fetch_args c path options w]"
proof -
  obtain answer w1 where f: "fetch (fetch_args c path options w) w = (answer, w1)"
    by (cases "fetch (fetch_args c path options w) w")
  then have "fetched w1 = fetched w @ [fetch_args c path options w]"
    using snd_fetch [of "fetch_args c path options w" w] by simp
  with f assms show ?thesis
    by (auto simp add: request_on_retry fetched_throw_api_error split: option.splits)
qed

lemma fetch_args_retry:
  "url (fetch_args c path (options\<lparr>isRetry := True\<rparr>) w2) = url (fetch_args c path options w) \<and>
   search (fetch_args c path (options\<lparr>isRetry := True\<rparr>) w2) = search (fetch_args c path options w) \<and>
   rq_method (fetch_args c path (options\<lparr>isRetry := True\<rparr>) w2) = rq_method (fetch_args c path options w) \<and>
   rq_body (fetch_args c path (options\<lparr>isRetry := True\<rparr>) w2) = rq_body (fetch_args c path options w)"
  by (simp add: fetch_args_def Let_def)

text \<open>
  The retry. A request that is not a retry receives status 401, the
  client has an \<^verbatim>\<open>onUnauthorized\<close> and it resolves true: the request is the retry made in
  the world the callback left, the retry makes exactly one call and never a third, that call
  has the address, the query, the method and the body of the first, and the caller receives
  what the second call gives.
\<close>

theorem request_retries_once_after_401:
  assumes "fetch (fetch_args c path options w) w = (Some resp, w1)" and "r_status resp = 401"
    and "\<not> isRetry options" and "onUnauthorized c = Some refresh" and "refresh w1 = (Inr True, w2)"
  shows "request c path options w = request c path (options\<lparr>isRetry := True\<rparr>) w2 \<and>
         request c path (options\<lparr>isRetry := True\<rparr>) w2 =
           (case fetch (fetch_args c path (options\<lparr>isRetry := True\<rparr>) w2) w2 of
              (None, w3) \<Rightarrow> (Inl NetworkFailure, w3)
            | (Some resp2, w3) \<Rightarrow>
                if \<not> ok resp2 then throw_api_error c resp2 w3
                else if r_status resp2 = 204 then (Inr JUndefined, w3)
                else (case r_json resp2 of None \<Rightarrow> (Inl SyntaxError, w3) | Some v \<Rightarrow> (Inr v, w3))) \<and>
         fetched w1 = fetched w @ [fetch_args c path options w] \<and>
         fetched (snd (request c path options w)) =
           fetched w2 @ [fetch_args c path (options\<lparr>isRetry := True\<rparr>) w2] \<and>
         url (fetch_args c path (options\<lparr>isRetry := True\<rparr>) w2) = url (fetch_args c path options w) \<and>
         rq_method (fetch_args c path (options\<lparr>isRetry := True\<rparr>) w2) = rq_method (fetch_args c path options w) \<and>
         rq_body (fetch_args c path (options\<lparr>isRetry := True\<rparr>) w2) = rq_body (fetch_args c path options w)"
proof -
  have first: "request c path options w = request c path (options\<lparr>isRetry := True\<rparr>) w2"
    using assms by (subst request.simps) (simp add: ok_def)
  have "fetched w1 = fetched w @ [fetch_args c path options w]"
    using assms(1) snd_fetch [of "fetch_args c path options w" w] by simp
  moreover have "fetched (snd (request c path (options\<lparr>isRetry := True\<rparr>) w2)) =
      fetched w2 @ [fetch_args c path (options\<lparr>isRetry := True\<rparr>) w2]"
    by (simp add: fetched_request_on_retry)
  moreover have "request c path (options\<lparr>isRetry := True\<rparr>) w2 =
           (case fetch (fetch_args c path (options\<lparr>isRetry := True\<rparr>) w2) w2 of
              (None, w3) \<Rightarrow> (Inl NetworkFailure, w3)
            | (Some resp2, w3) \<Rightarrow>
                if \<not> ok resp2 then throw_api_error c resp2 w3
                else if r_status resp2 = 204 then (Inr JUndefined, w3)
                else (case r_json resp2 of None \<Rightarrow> (Inl SyntaxError, w3) | Some v \<Rightarrow> (Inr v, w3)))"
    by (simp add: request_on_retry)
  ultimately show ?thesis
    using first fetch_args_retry [of c path options w2 w] by simp
qed

text \<open>
  The API Error, for every body but \<^verbatim>\<open>null\<close>. A response
  outside 200 to 299 that does not go to the retry, whose body is not the JSON \<^verbatim>\<open>null\<close>,
  with a hook that returns or none: one call was made, the request throws the API Error of
  the response, and the hook has received exactly that error, once.
\<close>

theorem request_raises_api_error:
  assumes "fetch (fetch_args c path options w) w = (Some resp, w1)" and "\<not> ok resp"
    and "r_status resp \<noteq> 401 \<or> isRetry options \<or> onUnauthorized c = None"
    and "r_json resp \<noteq> Some JNull" and "r_json resp \<noteq> Some JUndefined"
    and "onError c = None \<or> (\<exists>hook. onError c = Some hook \<and> hook (api_error_of resp) = None)"
  shows "request c path options w =
           (Inl (MitraApiError (api_error_of resp)),
            if onError c = None then w1 else w1\<lparr>reported := reported w1 @ [api_error_of resp]\<rparr>) \<and>
         fetched w1 = fetched w @ [fetch_args c path options w]"
proof -
  have "request c path options w = throw_api_error c resp w1"
    using assms(1,2,3) by (subst request.simps) auto
  moreover have "fetched w1 = fetched w @ [fetch_args c path options w]"
    using assms(1) snd_fetch [of "fetch_args c path options w" w] by simp
  ultimately show ?thesis
    using assms(6) by (auto simp add: throw_api_error_value [OF assms(4,5)])
qed


theorem request_retries_once_after_401_witness:
  "(case request retrying_client ''/api/v1/items'' no_options
           (empty_world\<lparr>network := [answer_with 401 (Some (JObj [])), answer_with 200 (Some (JArr []))]\<rparr>) of
      (r, w') \<Rightarrow> r = Inr (JArr []) \<and> length (fetched w') = 2 \<and> network w' = [])"
proof -
  define w where "w = empty_world\<lparr>network := [answer_with 401 (Some (JObj [])), answer_with 200 (Some (JArr []))]\<rparr>"
  define w1 where "w1 = snd (fetch (fetch_args retrying_client ''/api/v1/items'' no_options w) w)"
  have 1: "fetch (fetch_args retrying_client ''/api/v1/items'' no_options w) w =
             (Some \<lparr>r_status = 401, r_json = Some (JObj [])\<rparr>, w1)"
    by (simp add: w1_def w_def fetch_def answer_with_def empty_world_def)
  have 2: "onUnauthorized retrying_client = Some (\<lambda>w. (Inr True, w))"
    by (simp add: retrying_client_def new_HttpClient_def)
  have 3: "\<not> isRetry no_options"
    by (simp add: no_options_def)
  from request_retries_once_after_401 [OF 1 _ 3 2, of w1]
  have "request retrying_client ''/api/v1/items'' no_options w =
          request retrying_client ''/api/v1/items'' (no_options\<lparr>isRetry := True\<rparr>) w1"
    by simp
  then show ?thesis
    unfolding w_def [symmetric]
    by (simp add: request_on_retry w1_def w_def fetch_def fetch_args_def answer_with_def empty_world_def
        ok_def Let_def)
qed

theorem request_raises_api_error_witness:
  "request bare_client ''/api/v1/items/7'' no_options
     (empty_world\<lparr>network := [answer_with 404 (Some item_not_found)]\<rparr>) =
   (Inl (MitraApiError \<lparr>message = ''Task not found'', status = 404, code = JStr ''ENTITY_NOT_FOUND'',
                          details = item_not_found\<rparr>),
    empty_world\<lparr>fetched := [fetch_args bare_client ''/api/v1/items/7'' no_options empty_world]\<rparr>)"
proof -
  define w where "w = empty_world\<lparr>network := [answer_with 404 (Some item_not_found)]\<rparr>"
  define w1 where "w1 = empty_world\<lparr>fetched := [fetch_args bare_client ''/api/v1/items/7'' no_options empty_world]\<rparr>"
  define resp where "resp = \<lparr>r_status = 404, r_json = Some item_not_found\<rparr>"
  have 1: "fetch (fetch_args bare_client ''/api/v1/items/7'' no_options w) w = (Some resp, w1)"
    by (simp add: w1_def w_def resp_def fetch_def fetch_args_def answer_with_def empty_world_def Let_def
        bare_client_def new_HttpClient_def)
  have 2: "\<not> ok resp" "r_status resp \<noteq> 401 \<or> isRetry no_options \<or> onUnauthorized bare_client = None"
    "r_json resp \<noteq> Some JNull" "r_json resp \<noteq> Some JUndefined"
    "onError bare_client = None \<or>
       (\<exists>hook. onError bare_client = Some hook \<and> hook (api_error_of resp) = None)"
    by (simp_all add: resp_def ok_def item_not_found_def bare_client_def new_HttpClient_def)
  have 3: "api_error_of resp =
             \<lparr>message = ''Task not found'', status = 404, code = JStr ''ENTITY_NOT_FOUND'',
              details = item_not_found\<rparr>"
    by (simp add: api_error_of_def resp_def prop_of_def item_not_found_def)
  have 4: "onError bare_client = None"
    by (simp add: bare_client_def new_HttpClient_def)
  from request_raises_api_error [OF 1 2] show ?thesis
    by (simp add: 3 4 w_def w1_def)
qed

subsection \<open>The body that is sent\<close>

lemma truthy_defined: "truthy v \<Longrightarrow> v \<noteq> JUndefined"
  by (cases v) simp_all

text \<open>
  C10. The body that \<^verbatim>\<open>request\<close> gives to \<^verbatim>\<open>fetch\<close>, at the first call and at
  the retry, is the JSON text of the \<open>body\<close> option when that value is truthy, and there is
  none when it is falsy (\<^verbatim>\<open>0\<close>, the empty string, \<^verbatim>\<open>false\<close>, \<^verbatim>\<open>null\<close>,
  \<^verbatim>\<open>undefined\<close>). The calls that \<^verbatim>\<open>request\<close> makes are these: the first, recorded
  after those made before; and, when it is answered with 401, the request is not itself a
  retry and the client's \<^verbatim>\<open>onUnauthorized\<close> resolves true, the retry, recorded after
  whatever the callback did. With a falsy body the whole request behaves as the request
  without body does.
\<close>

theorem request_body_only_when_truthy:
  "(\<forall>w'. rq_body (fetch_args c path options w') =
            (if truthy (body options) then Some (Json (json_norm (body options))) else None) \<and>
          rq_body (fetch_args c path (options\<lparr>isRetry := True\<rparr>) w') = rq_body (fetch_args c path options w')) \<and>
   (case fetch (fetch_args c path options w) w of
      (answer, w1) \<Rightarrow>
        fetched w1 = fetched w @ [fetch_args c path options w] \<and>
        (if (\<exists>resp. answer = Some resp \<and> r_status resp = 401) \<and> \<not> isRetry options \<and> onUnauthorized c \<noteq> None
         then (case the (onUnauthorized c) w1 of
                 (Inl e, w2) \<Rightarrow> fetched (snd (request c path options w)) = fetched w2
               | (Inr refreshed, w2) \<Rightarrow>
                   fetched (snd (request c path options w)) =
                     (if refreshed then fetched w2 @ [fetch_args c path (options\<lparr>isRetry := True\<rparr>) w2]
                      else fetched w2))
         else fetched (snd (request c path options w)) = fetched w1)) \<and>
   (\<not> truthy (body options) \<longrightarrow>
      request c path options w = request c path (options\<lparr>body := JUndefined\<rparr>) w)"
proof -
  have 1: "\<forall>w'. rq_body (fetch_args c path options w') =
            (if truthy (body options) then Some (Json (json_norm (body options))) else None) \<and>
          rq_body (fetch_args c path (options\<lparr>isRetry := True\<rparr>) w') = rq_body (fetch_args c path options w')"
    by (auto simp add: rq_body_fetch_args JSON_stringify_def dest: truthy_defined)
  obtain answer w1 where f: "fetch (fetch_args c path options w) w = (answer, w1)"
    by (cases "fetch (fetch_args c path options w) w")
  have l: "fetched w1 = fetched w @ [fetch_args c path options w]"
    using f snd_fetch [of "fetch_args c path options w" w] by simp
  have 2: "if (\<exists>resp. answer = Some resp \<and> r_status resp = 401) \<and> \<not> isRetry options \<and> onUnauthorized c \<noteq> None
         then (case the (onUnauthorized c) w1 of
                 (Inl e, w2) \<Rightarrow> fetched (snd (request c path options w)) = fetched w2
               | (Inr refreshed, w2) \<Rightarrow>
                   fetched (snd (request c path options w)) =
                     (if refreshed then fetched w2 @ [fetch_args c path (options\<lparr>isRetry := True\<rparr>) w2]
                      else fetched w2))
         else fetched (snd (request c path options w)) = fetched w1"
  proof (cases "(\<exists>resp. answer = Some resp \<and> r_status resp = 401) \<and> \<not> isRetry options \<and> onUnauthorized c \<noteq> None")
    case True
    then obtain resp where resp: "answer = Some resp" "r_status resp = 401" by blast
    then have nok: "\<not> ok resp" by (simp add: ok_def)
    obtain r w2 where cb: "the (onUnauthorized c) w1 = (r, w2)" by (cases "the (onUnauthorized c) w1")
    have "fetched (snd (request c path options w)) =
            (case r of Inl e \<Rightarrow> fetched w2
             | Inr refreshed \<Rightarrow>
                 if refreshed then fetched w2 @ [fetch_args c path (options\<lparr>isRetry := True\<rparr>) w2]
                 else fetched w2)"
      using True resp nok cb f
      by (subst request.simps)
        (simp add: fetched_request_on_retry fetched_throw_api_error split: sum.splits)
    with True cb show ?thesis by (simp split: sum.splits)
  next
    case False
    have g: "fetched (snd (request c path options w)) = fetched w1"
      using False f
      by (subst request.simps) (auto simp add: fetched_throw_api_error split: option.splits)
    show ?thesis by (subst if_not_P [OF False]) (rule g)
  qed
  have 3: "\<not> truthy (body options) \<longrightarrow>
      request c path options w = request c path (options\<lparr>body := JUndefined\<rparr>) w"
    by (rule impI) (rule request_falsy_body_eq)
  show ?thesis
    unfolding f prod.case by (intro conjI) (rule 1 l 2 3)+
qed


theorem request_body_only_when_truthy_witness:
  "fetched (snd (request bare_client ''/api/v1/items''
                   (no_options\<lparr>meth := Some POST, body := JObj [(''title'', JStr ''Buy milk'')]\<rparr>)
                   (empty_world\<lparr>network := [answer_with 201 (Some (JObj [(''id'', JNum 7)]))]\<rparr>))) =
     [\<lparr>url = ''https://api.example/data-manager/api/v1/items'', search = [], rq_method = POST,
       rq_headers = [(''Content-Type'', ''application/json'')],
       rq_body = Some (Json (JObj [(''title'', JStr ''Buy milk'')]))\<rparr>] \<and>
   rq_body (fetch_args bare_client ''/api/v1/items'' (no_options\<lparr>meth := Some POST, body := JNum 0\<rparr>) empty_world) = None \<and>
   request bare_client ''/api/v1/items'' (no_options\<lparr>meth := Some POST, body := JNum 0\<rparr>) empty_world =
     request bare_client ''/api/v1/items'' (no_options\<lparr>meth := Some POST, body := JUndefined\<rparr>) empty_world"
proof -
  define w where "w = empty_world\<lparr>network := [answer_with 201 (Some (JObj [(''id'', JNum 7)]))]\<rparr>"
  define options where "options = no_options\<lparr>meth := Some POST, body := JObj [(''title'', JStr ''Buy milk'')]\<rparr>"
  define rq where
    "rq = \<lparr>url = ''https://api.example/data-manager/api/v1/items'', search = [], rq_method = POST,
            rq_headers = [(''Content-Type'', ''application/json'')],
            rq_body = Some (Json (JObj [(''title'', JStr ''Buy milk'')]))\<rparr>"
  have a: "fetch_args bare_client ''/api/v1/items'' options w = rq"
    by (simp add: rq_def options_def w_def fetch_args_def bare_client_def new_HttpClient_def strip_slash_def
        no_options_def spread_def own_order_def array_index_def is_digit_def empty_world_def
        JSON_stringify_def Let_def)
  have f: "fetch rq w = (Some \<lparr>r_status = 201, r_json = Some (JObj [(''id'', JNum 7)])\<rparr>, w\<lparr>network := [], fetched := [rq]\<rparr>)"
    by (simp add: fetch_def w_def answer_with_def empty_world_def)
  from request_body_only_when_truthy [of bare_client "''/api/v1/items''" options w]
  have 1: "fetched (snd (request bare_client ''/api/v1/items'' options w)) = [rq]"
    unfolding a f by simp
  from request_body_only_when_truthy [of bare_client "''/api/v1/items''" "no_options\<lparr>meth := Some POST, body := JNum 0\<rparr>" empty_world]
  have 2: "rq_body (fetch_args bare_client ''/api/v1/items'' (no_options\<lparr>meth := Some POST, body := JNum 0\<rparr>) empty_world) = None"
    and 3: "request bare_client ''/api/v1/items'' (no_options\<lparr>meth := Some POST, body := JNum 0\<rparr>) empty_world =
     request bare_client ''/api/v1/items'' (no_options\<lparr>meth := Some POST, body := JUndefined\<rparr>) empty_world"
    by simp_all
  from 1 2 3 show ?thesis
    unfolding w_def options_def rq_def by simp
qed

section \<open>Properties of AuthModule\<close>

subsection \<open>What each part leaves alone\<close>

lemma publicClient_plain [simp]:
  "onUnauthorized (publicClient a) = None" "onError (publicClient a) = None"
  "tokenGetter (publicClient a) w = JNull" "baseUrl (publicClient a) = strip_slash (iamBaseUrl a)"
  "defaultHeaders (publicClient a) = []"
  by (simp_all add: publicClient_def new_HttpClient_def)

lemma authedClient_plain [simp]:
  "onUnauthorized (authedClient a) = None" "onError (authedClient a) = None"
  "tokenGetter (authedClient a) w = accessToken (auth w)" "baseUrl (authedClient a) = strip_slash (iamBaseUrl a)"
  "defaultHeaders (authedClient a) = []"
  by (simp_all add: authedClient_def new_HttpClient_def)

lemma notify_one_frame [simp]:
  "auth (notify_one w l) = auth w" "localStorage (notify_one w l) = localStorage w"
  "network (notify_one w l) = network w" "fetched (notify_one w l) = fetched w"
  "reported (notify_one w l) = reported w" "throwing (notify_one w l) = throwing w"
  "window (notify_one w l) = window w"
  by (simp_all add: notify_one_def call_listener_def)

lemma foldl_notify_one_frame [simp]:
  "auth (foldl notify_one w ls) = auth w" "localStorage (foldl notify_one w ls) = localStorage w"
  "network (foldl notify_one w ls) = network w" "fetched (foldl notify_one w ls) = fetched w"
  "reported (foldl notify_one w ls) = reported w" "throwing (foldl notify_one w ls) = throwing w"
  "window (foldl notify_one w ls) = window w"
  by (induction ls arbitrary: w; simp)+

lemma notifyListeners_frame [simp]:
  "auth (notifyListeners w) = auth w" "localStorage (notifyListeners w) = localStorage w"
  "network (notifyListeners w) = network w" "fetched (notifyListeners w) = fetched w"
  "reported (notifyListeners w) = reported w" "throwing (notifyListeners w) = throwing w"
  "window (notifyListeners w) = window w"
  by (simp_all add: notifyListeners_def)

lemma saveToStorage_frame [simp]:
  "auth (saveToStorage w) = auth w" "network (saveToStorage w) = network w"
  "fetched (saveToStorage w) = fetched w" "reported (saveToStorage w) = reported w"
  "throwing (saveToStorage w) = throwing w" "window (saveToStorage w) = window w"
  "notified (saveToStorage w) = notified w" "console (saveToStorage w) = console w"
  by (simp_all add: saveToStorage_def split: option.splits sum.splits)

lemma removeFromStorage_frame [simp]:
  "auth (removeFromStorage w) = auth w" "network (removeFromStorage w) = network w"
  "fetched (removeFromStorage w) = fetched w" "reported (removeFromStorage w) = reported w"
  "throwing (removeFromStorage w) = throwing w" "window (removeFromStorage w) = window w"
  "notified (removeFromStorage w) = notified w" "console (removeFromStorage w) = console w"
  by (simp_all add: removeFromStorage_def split: option.splits sum.splits)

lemma auth_clearAuthState [simp]:
  "auth (clearAuthState w) = (auth w)\<lparr>currentUser := JNull, accessToken := JNull, refreshToken := JNull\<rparr>"
  by (simp add: clearAuthState_def)

lemma auth_setAuthState [simp]:
  "auth (setAuthState user token rt w) = (auth w)\<lparr>currentUser := user, accessToken := token, refreshToken := rt\<rparr>"
  by (simp add: setAuthState_def)

lemma setAuthState_frame [simp]:
  "network (setAuthState user token rt w) = network w"
  "fetched (setAuthState user token rt w) = fetched w"
  "reported (setAuthState user token rt w) = reported w"
  by (simp_all add: setAuthState_def)

lemma clearAuthState_frame [simp]:
  "network (clearAuthState w) = network w"
  "fetched (clearAuthState w) = fetched w"
  "reported (clearAuthState w) = reported w"
  by (simp_all add: clearAuthState_def)

subsection \<open>Evaluation of the example worlds\<close>

lemmas eval_defs =
  fresh_world_def empty_world_def new_AuthModule_def loadFromStorage_def read_stored_def getItem_def
  setItem_def removeItem_def removeFromStorage_def saveToStorage_def session_record_def JSON_stringify_def
  call_listener_def notify_one_def notifyListeners_def setAuthState_def clearAuthState_def storageKey_def
  publicClient_def authedClient_def new_HttpClient_def strip_slash_def no_options_def
  get_def post_def request_without_callback fetch_def fetch_args_def throw_api_error_def
  ok_def spread_def own_order_def array_index_def is_digit_def answer_with_def example_user_def example_tokens_def credentials_json_def
  install_tokens_def signIn_def doRefresh_def refreshSession_def me_def Let_def signed_in_world_def
  bare_client_def hooked_client_def

lemma fresh_world_value:
  "fresh_world =
     \<lparr>network = [], fetched = [], reported = [], console = [], notified = [], throwing = [],
      localStorage = Some \<lparr>items = [], denied = []\<rparr>, window = None,
      auth = \<lparr>appId = ''app'', iamBaseUrl = ''https://api.example/iam'', currentUser = JNull,
              accessToken = JNull, refreshToken = JNull, refreshPromise = False, listeners = []\<rparr>\<rparr>"
  by (simp add: eval_defs)

lemma signed_in_world_value:
  "signed_in_world =
     \<lparr>network = [],
      fetched =
        [\<lparr>url = ''https://api.example/iam/api/v1/auth/tokens'', search = [], rq_method = POST,
          rq_headers = [(''Content-Type'', ''application/json'')],
          rq_body = Some (Json (JObj [(''email'', JStr ''a@b.com''), (''password'', JStr ''pw'')]))\<rparr>,
         \<lparr>url = ''https://api.example/iam/api/v1/auth/me'', search = [], rq_method = GET,
          rq_headers = [(''Content-Type'', ''application/json''), (''Authorization'', ''Bearer t1'')],
          rq_body = None\<rparr>],
      reported = [], console = [], notified = [], throwing = [],
      localStorage =
        Some \<lparr>items =
                [(''mitra_auth_app'',
                  Json (JObj [(''user'', example_user), (''token'', JStr ''t1''),
                              (''refreshToken'', JStr ''r1'')]))],
              denied = []\<rparr>,
      window = None,
      auth = \<lparr>appId = ''app'', iamBaseUrl = ''https://api.example/iam'', currentUser = example_user,
              accessToken = JStr ''t1'', refreshToken = JStr ''r1'', refreshPromise = False,
              listeners = []\<rparr>\<rparr>"
  by (simp add: eval_defs)

lemmas run_defs =
  loadFromStorage_def read_stored_def getItem_def new_AuthModule_def
  setItem_def removeItem_def removeFromStorage_def saveToStorage_def session_record_def JSON_stringify_def
  call_listener_def notify_one_def notifyListeners_def setAuthState_def clearAuthState_def storageKey_def
  publicClient_def authedClient_def new_HttpClient_def strip_slash_def no_options_def
  get_def post_def request_without_callback fetch_def fetch_args_def throw_api_error_def
  ok_def spread_def own_order_def array_index_def is_digit_def answer_with_def example_user_def example_tokens_def credentials_json_def
  install_tokens_def signIn_def doRefresh_def refreshSession_def me_def Let_def
  bare_client_def hooked_client_def fresh_world_value signed_in_world_value signOut_def setToken_def
  run_def onAuthStateChange_def

subsection \<open>refreshSession\<close>

lemma install_tokens_success:
  assumes "install_tokens tr w = (Inr user, w')"
  shows "\<exists>token rt rq.
           get_prop tr ''accessToken'' = Inr token \<and> get_prop tr ''refreshToken'' = Inr rt \<and>
           resolved (fst (fetch rq (w\<lparr>auth := (auth w)\<lparr>accessToken := token, refreshToken := rt\<rparr>\<rparr>))) = Some user \<and>
           w' = setAuthState user token rt
                  (snd (fetch rq (w\<lparr>auth := (auth w)\<lparr>accessToken := token, refreshToken := rt\<rparr>\<rparr>)))"
proof -
  from assms obtain token where t: "get_prop tr ''accessToken'' = Inr token"
    by (auto simp add: install_tokens_def split: sum.splits)
  from assms t obtain rt where r: "get_prop tr ''refreshToken'' = Inr rt"
    by (auto simp add: install_tokens_def Let_def split: sum.splits)
  define w2 where "w2 = w\<lparr>auth := (auth w)\<lparr>accessToken := token, refreshToken := rt\<rparr>\<rparr>"
  define c where "c = authedClient (auth w2)"
  define options where "options = no_options\<lparr>meth := Some GET, params := None\<rparr>"
  define rq where "rq = fetch_args c ''/api/v1/auth/me'' options w2"
  have plain: "onUnauthorized c = None" "onError c = None"
    by (simp_all add: c_def)
  from assms t r have g: "fst (request c ''/api/v1/auth/me'' options w2) = Inr user"
    and w': "w' = setAuthState user token rt (snd (request c ''/api/v1/auth/me'' options w2))"
    by (auto simp add: install_tokens_def Let_def get_def w2_def c_def options_def
        split: sum.splits prod.splits)
  from g have "resolved (fst (fetch rq w2)) = Some user"
    by (simp add: plain_request_resolves [OF plain(1)] rq_def)
  moreover from w' have "w' = setAuthState user token rt (snd (fetch rq w2))"
    by (simp add: request_plain_world [OF plain] rq_def)
  ultimately show ?thesis
    using t r unfolding w2_def by blast
qed

lemma doRefresh_success:
  assumes "doRefresh w = (True, w')"
  shows "\<exists>rq1 rq2 a1 a2 rest tr.
           network w = a1 # a2 # rest \<and> network w' = rest \<and> fetched w' = fetched w @ [rq1, rq2] \<and>
           resolved (a1 rq1) = Some tr \<and> resolved (a2 rq2) = Some (currentUser (auth w')) \<and>
           get_prop tr ''accessToken'' = Inr (accessToken (auth w')) \<and>
           get_prop tr ''refreshToken'' = Inr (refreshToken (auth w')) \<and>
           refreshPromise (auth w') = refreshPromise (auth w)"
proof -
  define c where "c = publicClient (auth w)"
  define options where
    "options = no_options\<lparr>meth := Some POST, body := JObj [(''refreshToken'', refreshToken (auth w))]\<rparr>"
  define rq1 where "rq1 = fetch_args c ''/api/v1/auth/tokens/refresh'' options w"
  have plain: "onUnauthorized c = None" "onError c = None"
    by (simp_all add: c_def)
  obtain res w1 where p: "request c ''/api/v1/auth/tokens/refresh'' options w = (res, w1)"
    by (cases "request c ''/api/v1/auth/tokens/refresh'' options w")
  from assms p obtain tr user where res: "res = Inr tr" and inst: "install_tokens tr w1 = (Inr user, w')"
    by (auto simp add: doRefresh_def post_def c_def options_def split: sum.splits prod.splits)
  from p res have r1: "resolved (fst (fetch rq1 w)) = Some tr"
    using plain_request_resolves [OF plain(1), of "''/api/v1/auth/tokens/refresh''" options w tr]
    by (simp add: rq1_def)
  from p have w1: "w1 = snd (fetch rq1 w)"
    using request_plain_world [OF plain, of "''/api/v1/auth/tokens/refresh''" options w]
    by (simp add: rq1_def)
  from resolved_fetch_Some [OF r1] obtain a1 n1 where
    n: "network w = a1 # n1" and a1: "resolved (a1 rq1) = Some tr" and n1: "network w1 = n1"
    using w1 by auto
  from install_tokens_success [OF inst] obtain token rt rq2 where
    t: "get_prop tr ''accessToken'' = Inr token" and r: "get_prop tr ''refreshToken'' = Inr rt" and
    r2: "resolved (fst (fetch rq2 (w1\<lparr>auth := (auth w1)\<lparr>accessToken := token, refreshToken := rt\<rparr>\<rparr>))) = Some user" and
    w': "w' = setAuthState user token rt
                (snd (fetch rq2 (w1\<lparr>auth := (auth w1)\<lparr>accessToken := token, refreshToken := rt\<rparr>\<rparr>)))"
    by blast
  from resolved_fetch_Some [OF r2] n1 obtain a2 rest where
    n1': "n1 = a2 # rest" and a2: "resolved (a2 rq2) = Some user" and
    rest: "network (snd (fetch rq2 (w1\<lparr>auth := (auth w1)\<lparr>accessToken := token, refreshToken := rt\<rparr>\<rparr>))) = rest"
    by auto
  have "network w = a1 # a2 # rest" using n n1' by simp
  moreover have "network w' = rest" using w' rest by simp
  moreover have "fetched w' = fetched w @ [rq1, rq2]"
    using w' w1 by (simp add: snd_fetch)
  moreover have "currentUser (auth w') = user" "accessToken (auth w') = token" "refreshToken (auth w') = rt"
    "refreshPromise (auth w') = refreshPromise (auth w)"
    using w' w1 by (simp_all add: snd_fetch)
  ultimately show ?thesis
    using a1 a2 t r by auto
qed

lemma doRefresh_failure:
  assumes "doRefresh w = (False, w')"
  shows "currentUser (auth w') = JNull \<and> accessToken (auth w') = JNull \<and> refreshToken (auth w') = JNull"
  using assms by (auto simp add: doRefresh_def split: sum.splits prod.splits)

lemma fetch_head: "network w = a # rest \<Longrightarrow> fst (fetch rq w) = a rq \<and> network (snd (fetch rq w)) = rest"
  by (simp add: fetch_def)

lemma plain_request_head:
  assumes "onUnauthorized c = None" and "onError c = None"
    and "network w = a # rest" and "\<And>rq. resolved (a rq) = Some v"
  shows "fst (request c path options w) = Inr v \<and> network (snd (request c path options w)) = rest \<and>
         auth (snd (request c path options w)) = auth w"
proof -
  have "resolved (fst (fetch (fetch_args c path options w) w)) = Some v"
    using fetch_head [OF assms(3)] assms(4) by simp
  then have "fst (request c path options w) = Inr v"
    by (simp add: plain_request_resolves [OF assms(1)])
  moreover have "snd (request c path options w) = snd (fetch (fetch_args c path options w) w)"
    by (rule request_plain_world [OF assms(1,2)])
  ultimately show ?thesis
    using fetch_head [OF assms(3)] by (simp add: snd_fetch)
qed

lemma install_tokens_succeeds:
  assumes "\<not> nullish tr" and "network w = a # rest" and "\<And>rq. resolved (a rq) = Some user"
  shows "\<exists>w'. install_tokens tr w = (Inr user, w')"
proof -
  from assms(1) obtain token rt where
    t: "get_prop tr ''accessToken'' = Inr token" and r: "get_prop tr ''refreshToken'' = Inr rt"
    by (cases tr) simp_all
  define w2 where "w2 = w\<lparr>auth := (auth w)\<lparr>accessToken := token, refreshToken := rt\<rparr>\<rparr>"
  have n: "network w2 = a # rest" using assms(2) by (simp add: w2_def)
  have "fst (request (authedClient (auth w2)) ''/api/v1/auth/me''
               (no_options\<lparr>meth := Some GET, params := None\<rparr>) w2) = Inr user"
    using plain_request_head [OF _ _ n assms(3)] by simp
  then show ?thesis
    using t r by (auto simp add: install_tokens_def Let_def get_def w2_def split: prod.splits sum.splits)
qed

lemma doRefresh_succeeds:
  assumes "network w = a1 # a2 # rest" and "\<And>rq. resolved (a1 rq) = Some tr" and "\<not> nullish tr"
    and "\<And>rq. resolved (a2 rq) = Some user"
  shows "fst (doRefresh w) = True"
proof -
  define options where
    "options = no_options\<lparr>meth := Some POST, body := JObj [(''refreshToken'', refreshToken (auth w))]\<rparr>"
  obtain r w1 where p: "request (publicClient (auth w)) ''/api/v1/auth/tokens/refresh'' options w = (r, w1)"
    by (cases "request (publicClient (auth w)) ''/api/v1/auth/tokens/refresh'' options w")
  from plain_request_head [OF _ _ assms(1,2), of "publicClient (auth w)" "''/api/v1/auth/tokens/refresh''" options] p
  have r: "r = Inr tr" and n: "network w1 = a2 # rest"
    by simp_all
  from install_tokens_succeeds [OF assms(3) n assms(4)] obtain w' where
    "install_tokens tr w1 = (Inr user, w')"
    by blast
  with p r show ?thesis
    by (simp add: doRefresh_def post_def options_def)
qed

lemma refreshSession_succeeds:
  assumes "truthy (refreshToken (auth w))" and "\<not> refreshPromise (auth w)"
    and "network w = a1 # a2 # rest" and "\<And>rq. resolved (a1 rq) = Some tr" and "\<not> nullish tr"
    and "\<And>rq. resolved (a2 rq) = Some user"
  shows "fst (refreshSession w) = Settled True"
proof -
  have "fst (doRefresh (w\<lparr>auth := (auth w)\<lparr>refreshPromise := True\<rparr>\<rparr>)) = True"
    using doRefresh_succeeds [of "w\<lparr>auth := (auth w)\<lparr>refreshPromise := True\<rparr>\<rparr>" a1 a2 rest tr user] assms(3-6)
    by simp
  with assms(1,2) show ?thesis
    by (auto simp add: refreshSession_def split: prod.splits)
qed

lemma refreshSession_outcomes:
  assumes "refreshSession w = (r, w')"
  shows "(\<not> truthy (refreshToken (auth w)) \<longrightarrow> r = Settled False \<and> w' = w) \<and>
         (truthy (refreshToken (auth w)) \<and> \<not> refreshPromise (auth w) \<longrightarrow>
            \<not> refreshPromise (auth w') \<and>
            (r = Settled False \<and>
               currentUser (auth w') = JNull \<and> accessToken (auth w') = JNull \<and> refreshToken (auth w') = JNull
             \<or>
             r = Settled True \<and>
               (\<exists>rq1 rq2 a1 a2 rest tr.
                  network w = a1 # a2 # rest \<and> network w' = rest \<and> fetched w' = fetched w @ [rq1, rq2] \<and>
                  resolved (a1 rq1) = Some tr \<and> resolved (a2 rq2) = Some (currentUser (auth w')) \<and>
                  get_prop tr ''accessToken'' = Inr (accessToken (auth w')) \<and>
                  get_prop tr ''refreshToken'' = Inr (refreshToken (auth w')))))"
proof (cases "truthy (refreshToken (auth w)) \<and> \<not> refreshPromise (auth w)")
  case False
  with assms show ?thesis
    by (auto simp add: refreshSession_def split: if_splits)
next
  case True
  define w0 where "w0 = w\<lparr>auth := (auth w)\<lparr>refreshPromise := True\<rparr>\<rparr>"
  obtain b w1 where d: "doRefresh w0 = (b, w1)"
    by (cases "doRefresh w0")
  with assms True have r: "r = Settled b" and w': "w' = w1\<lparr>auth := (auth w1)\<lparr>refreshPromise := False\<rparr>\<rparr>"
    by (simp_all add: refreshSession_def w0_def)
  show ?thesis
  proof (cases b)
    case False
    with d doRefresh_failure [of w0 w1] r w' True show ?thesis by simp
  next
    case b: True
    with d have d': "doRefresh w0 = (True, w1)" by simp
    from doRefresh_success [OF d'] obtain rq1 rq2 a1 a2 rest tr where
      "network w0 = a1 # a2 # rest" "network w1 = rest" "fetched w1 = fetched w0 @ [rq1, rq2]"
      "resolved (a1 rq1) = Some tr" "resolved (a2 rq2) = Some (currentUser (auth w1))"
      "get_prop tr ''accessToken'' = Inr (accessToken (auth w1))"
      "get_prop tr ''refreshToken'' = Inr (refreshToken (auth w1))"
      by blast
    then have "\<exists>rq1 rq2 a1 a2 rest tr.
                  network w = a1 # a2 # rest \<and> network w' = rest \<and> fetched w' = fetched w @ [rq1, rq2] \<and>
                  resolved (a1 rq1) = Some tr \<and> resolved (a2 rq2) = Some (currentUser (auth w')) \<and>
                  get_prop tr ''accessToken'' = Inr (accessToken (auth w')) \<and>
                  get_prop tr ''refreshToken'' = Inr (refreshToken (auth w'))"
      unfolding w' w0_def by simp
    with r b w' True show ?thesis by simp
  qed
qed

text \<open>
  C4. \<^verbatim>\<open>refreshSession\<close> without a refresh token returns false and leaves the world as
  it is, so it makes no network call. With a refresh token and no refresh in flight it
  settles, \<open>refreshPromise\<close> is \<^verbatim>\<open>null\<close> again afterwards, and either it returns false and
  user, access token and refresh token are all \<^verbatim>\<open>null\<close>, or it returns true and the Session
  is the new one: exactly two calls were made, both answered successfully, the tokens are
  those of the first answer and the user is the second answer. It does return true when the
  network answers the two calls successfully, the first with a value other than
  \<^verbatim>\<open>null\<close> and \<^verbatim>\<open>undefined\<close>.
\<close>

theorem refreshSession_contract:
  assumes "refreshSession w = (r, w')"
  shows "(\<not> truthy (refreshToken (auth w)) \<longrightarrow> r = Settled False \<and> w' = w) \<and>
         (truthy (refreshToken (auth w)) \<and> \<not> refreshPromise (auth w) \<longrightarrow>
            \<not> refreshPromise (auth w') \<and>
            (r = Settled False \<and>
               currentUser (auth w') = JNull \<and> accessToken (auth w') = JNull \<and> refreshToken (auth w') = JNull
             \<or>
             r = Settled True \<and>
               (\<exists>rq1 rq2 a1 a2 rest tr.
                  network w = a1 # a2 # rest \<and> network w' = rest \<and> fetched w' = fetched w @ [rq1, rq2] \<and>
                  resolved (a1 rq1) = Some tr \<and> resolved (a2 rq2) = Some (currentUser (auth w')) \<and>
                  get_prop tr ''accessToken'' = Inr (accessToken (auth w')) \<and>
                  get_prop tr ''refreshToken'' = Inr (refreshToken (auth w'))))) \<and>
         (truthy (refreshToken (auth w)) \<and> \<not> refreshPromise (auth w) \<and>
          (\<exists>a1 a2 rest tr user.
             network w = a1 # a2 # rest \<and> (\<forall>rq. resolved (a1 rq) = Some tr) \<and> \<not> nullish tr \<and>
             (\<forall>rq. resolved (a2 rq) = Some user)) \<longrightarrow>
            r = Settled True)"
proof -
  have "r = Settled True"
    if "truthy (refreshToken (auth w))" "\<not> refreshPromise (auth w)"
      "network w = a1 # a2 # rest" "\<forall>rq. resolved (a1 rq) = Some tr" "\<not> nullish tr"
      "\<forall>rq. resolved (a2 rq) = Some user"
    for a1 a2 rest tr user
    using refreshSession_succeeds [of w a1 a2 rest tr user] that assms by simp
  then show ?thesis
    using refreshSession_outcomes [OF assms] by blast
qed

theorem refreshSession_contract_witness:
  "truthy (refreshToken (auth refreshing_world)) \<and> \<not> refreshPromise (auth refreshing_world) \<and>
   fst (refreshSession refreshing_world) = Settled True \<and>
   \<not> refreshPromise (auth (snd (refreshSession refreshing_world))) \<and>
   currentUser (auth (snd (refreshSession refreshing_world))) = example_user"
proof -
  have t: "truthy (refreshToken (auth refreshing_world))" and p: "\<not> refreshPromise (auth refreshing_world)"
    by (simp_all add: refreshing_world_def signed_in_world_value)
  have e: "refreshSession refreshing_world =
             (fst (refreshSession refreshing_world), snd (refreshSession refreshing_world))"
    by simp
  from refreshSession_contract [OF e] t p
  have "\<not> refreshPromise (auth (snd (refreshSession refreshing_world)))"
    by blast
  moreover have "fst (refreshSession refreshing_world) = Settled True"
    "currentUser (auth (snd (refreshSession refreshing_world))) = example_user"
    by (simp_all add: refreshing_world_def run_defs)
  ultimately show ?thesis using t p by simp
qed

subsection \<open>Persistence\<close>

lemma is_json_defined: "is_json v \<Longrightarrow> v \<noteq> JUndefined"
  by auto


lemma session_record_defined [simp]: "session_record a \<noteq> JUndefined"
  by (simp add: session_record_def)








subsection \<open>The invariant of the Session\<close>



































lemma setToken_frame:
  "network (setToken token save w) = network w"
  by (simp add: setToken_def Let_def)








subsection \<open>me and signIn\<close>

text \<open>
  The failures of \<^verbatim>\<open>me\<close>. When \<^verbatim>\<open>me\<close> holds an access
  token and its call fails (network failure, a status outside 200 to 299, a body that is not
  JSON), it returns \<^verbatim>\<open>null\<close>; after a 401 whose body is not the JSON \<^verbatim>\<open>null\<close> the
  Session is cleared; in every other case nothing changes but the record of the network.
\<close>

theorem me_failure:
  assumes "truthy (accessToken (auth w))" and "fetch (me_request w) w = (answer, w1)"
    and "resolved answer = None"
  shows "fst (me w) = JNull \<and>
         (if (\<exists>resp. answer = Some resp \<and> r_status resp = 401 \<and> r_json resp \<noteq> Some JNull \<and>
                r_json resp \<noteq> Some JUndefined)
          then snd (me w) = clearAuthState w1
          else snd (me w) = w1) \<and>
         auth w1 = auth w \<and> localStorage w1 = localStorage w"
proof -
  define c where "c = authedClient (auth w)"
  define options where "options = no_options\<lparr>meth := Some GET, params := None\<rparr>"
  have rq: "me_request w = fetch_args c ''/api/v1/auth/me'' options w"
    by (simp add: me_request_def c_def options_def)
  have plain: "onUnauthorized c = None" "onError c = None"
    by (simp_all add: c_def)
  have frame: "auth w1 = auth w" "localStorage w1 = localStorage w"
    using assms(2) snd_fetch [of "me_request w" w] by auto
  have m: "me w =
        (case request c ''/api/v1/auth/me'' options w of
           (Inr user, w1) \<Rightarrow>
             (user, notifyListeners (saveToStorage (w1\<lparr>auth := (auth w1)\<lparr>currentUser := user\<rparr>\<rparr>)))
         | (Inl (MitraApiError error), w1) \<Rightarrow>
             if status error = 401 then (JNull, clearAuthState w1) else (JNull, w1)
         | (Inl e, w1) \<Rightarrow> (JNull, w1))"
    using assms(1) by (simp add: me_def get_def c_def options_def)
  show ?thesis
  proof (cases answer)
    case None
    with assms(2) rq plain have "request c ''/api/v1/auth/me'' options w = (Inl NetworkFailure, w1)"
      by (simp add: request_without_callback)
    with None frame show ?thesis by (simp add: m)
  next
    case (Some resp)
    show ?thesis
    proof (cases "ok resp")
      case True
      with assms(3) Some have j: "r_status resp \<noteq> 204" "r_json resp = None"
        by (auto simp add: resolved_def split: if_splits)
      with assms(2) rq plain Some True
      have "request c ''/api/v1/auth/me'' options w = (Inl SyntaxError, w1)"
        by (simp add: request_without_callback)
      moreover from True have "r_status resp \<noteq> 401" by (auto simp add: ok_def)
      ultimately show ?thesis using Some frame by (simp add: m)
    next
      case False
      with assms(2) rq plain Some
      have r: "request c ''/api/v1/auth/me'' options w = throw_api_error c resp w1"
        by (simp add: request_without_callback)
      show ?thesis
      proof (cases "r_json resp \<noteq> Some JNull \<and> r_json resp \<noteq> Some JUndefined")
        case True
        then have "throw_api_error c resp w1 = (Inl (MitraApiError (api_error_of resp)), w1)"
          using plain by (simp add: throw_api_error_value)
        moreover have "status (api_error_of resp) = r_status resp"
          by (simp add: api_error_of_def Let_def)
        ultimately show ?thesis using r Some True frame by (simp add: m)
      next
        case False
        then have "throw_api_error c resp w1 = (Inl TypeError, w1)"
          by (auto simp add: throw_api_error_def)
        with r Some False frame show ?thesis by (auto simp add: m)
      qed
    qed
  qed
qed

theorem me_failure_witness:
  "(case me (signed_in_world\<lparr>network := [answer_with 401 (Some (JObj [(''message'', JStr ''expired'')]))]\<rparr>) of
      (user, w') \<Rightarrow>
        user = JNull \<and> currentUser (auth w') = JNull \<and> accessToken (auth w') = JNull \<and>
        refreshToken (auth w') = JNull)"
proof -
  define resp where "resp = \<lparr>r_status = 401, r_json = Some (JObj [(''message'', JStr ''expired'')])\<rparr>"
  define w where "w = signed_in_world\<lparr>network := [answer_with 401 (Some (JObj [(''message'', JStr ''expired'')]))]\<rparr>"
  define w1 where "w1 = snd (fetch (me_request w) w)"
  have 1: "truthy (accessToken (auth w))"
    by (simp add: w_def signed_in_world_value)
  have 2: "fetch (me_request w) w = (Some resp, w1)"
    by (simp add: w1_def w_def resp_def fetch_def answer_with_def signed_in_world_value)
  have 3: "resolved (Some resp) = None"
    by (simp add: resolved_def resp_def ok_def)
  have 4: "\<exists>r. Some resp = Some r \<and> r_status r = 401 \<and> r_json r \<noteq> Some JNull \<and> r_json r \<noteq> Some JUndefined"
    by (simp add: resp_def)
  from me_failure [OF 1 2 3] 4 have "fst (me w) = JNull" "snd (me w) = clearAuthState w1"
    by simp_all
  then show ?thesis
    unfolding w_def [symmetric] by (simp add: case_prod_beta)
qed

text \<open>
  The first step of \<^verbatim>\<open>signIn\<close>. When the token request of \<^verbatim>\<open>signIn\<close> fails (rejected
  credentials, any status outside 200 to 299, a network failure), \<^verbatim>\<open>signIn\<close> fails and the
  Session, the stored record and the listeners are untouched.
\<close>

theorem signIn_rejected_credentials:
  assumes "resolved (fst (fetch (signIn_request credentials w) w)) = None"
  shows "(\<exists>e. fst (signIn credentials w) = Inl e) \<and>
         auth (snd (signIn credentials w)) = auth w \<and>
         localStorage (snd (signIn credentials w)) = localStorage w \<and>
         notified (snd (signIn credentials w)) = notified w"
proof -
  define c where "c = publicClient (auth w)"
  define options where "options = no_options\<lparr>meth := Some POST, body := credentials_json credentials\<rparr>"
  have plain: "onUnauthorized c = None" "onError c = None"
    by (simp_all add: c_def)
  obtain r w1 where p: "request c ''/api/v1/auth/tokens'' options w = (r, w1)"
    by (cases "request c ''/api/v1/auth/tokens'' options w")
  have "\<not> (\<exists>v. r = Inr v)"
    using plain_request_resolves [OF plain(1), of "''/api/v1/auth/tokens''" options w] p assms
    by (auto simp add: signIn_request_def c_def options_def)
  then obtain e where e: "r = Inl e" by (cases r) auto
  have "w1 = snd (fetch (fetch_args c ''/api/v1/auth/tokens'' options w) w)"
    using request_plain_world [OF plain, of "''/api/v1/auth/tokens''" options w] p by simp
  then have "auth w1 = auth w" "localStorage w1 = localStorage w" "notified w1 = notified w"
    by (simp_all add: snd_fetch)
  moreover from p e have "signIn credentials w = (Inl e, w1)"
    by (simp add: signIn_def post_def c_def options_def)
  ultimately show ?thesis by simp
qed

theorem signIn_rejected_credentials_witness:
  "(case signIn \<lparr>email = ''a@b.com'', password = ''wrong''\<rparr>
           (fresh_world\<lparr>network := [answer_with 401 (Some (JObj [(''message'', JStr ''Invalid credentials'')]))]\<rparr>) of
      (r, w') \<Rightarrow> (\<exists>e. r = Inl e) \<and> auth w' = auth fresh_world \<and> localStorage w' = localStorage fresh_world)"
proof -
  define w where
    "w = fresh_world\<lparr>network := [answer_with 401 (Some (JObj [(''message'', JStr ''Invalid credentials'')]))]\<rparr>"
  have "resolved (fst (fetch (signIn_request \<lparr>email = ''a@b.com'', password = ''wrong''\<rparr> w) w)) = None"
    by (simp add: w_def fetch_def answer_with_def resolved_def ok_def fresh_world_value)
  from signIn_rejected_credentials [OF this] show ?thesis
    unfolding w_def [symmetric] by (simp add: case_prod_beta w_def)
qed

subsection \<open>Calls of refreshSession that overlap\<close>

lemma refresh_calls_cong:
  "iamBaseUrl (auth w') = iamBaseUrl (auth w) \<Longrightarrow> fetched w' = fetched w \<Longrightarrow> refresh_calls w' = refresh_calls w"
  by (simp add: refresh_calls_def)

lemma signOut_auth_fetched:
  "auth (signOut r w) = (auth w)\<lparr>currentUser := JNull, accessToken := JNull, refreshToken := JNull\<rparr>"
  "fetched (signOut r w) = fetched w"
  by (simp_all add: signOut_def Let_def split: option.splits)

lemma setToken_auth_fetched:
  "auth (setToken token save w) = (auth w)\<lparr>accessToken := JStr token\<rparr>"
  "fetched (setToken token save w) = fetched w"
  by (simp_all add: setToken_def Let_def)

lemma url_refresh_request:
  "url (refresh_request w) = strip_slash (iamBaseUrl (auth w)) @ ''/api/v1/auth/tokens/refresh''"
  by (simp add: refresh_request_def fetch_args_def Let_def)

lemma url_me_request:
  "url (me_request w) = strip_slash (iamBaseUrl (auth w)) @ ''/api/v1/auth/me''"
  by (simp add: me_request_def fetch_args_def Let_def)

lemma single_flight_start:
  "\<not> refreshPromise (auth w) \<Longrightarrow> single_flight (refresh_calls w) (start w)"
  by (simp add: single_flight_def start_def)

lemma single_flight_now:
  assumes "single_flight c s" and "refreshPromise (auth w') = refreshPromise (auth (now s))"
    and "iamBaseUrl (auth w') = iamBaseUrl (auth (now s))" and "fetched w' = fetched (now s)"
  shows "single_flight c (s\<lparr>now := w'\<rparr>)"
  using assms refresh_calls_cong [of w' "now s"]
  by (simp add: single_flight_def)

lemma single_flight_SignOutNow: "single_flight c s \<Longrightarrow> single_flight c (react SignOutNow s)"
  by (simp add: single_flight_now signOut_auth_fetched)

lemma single_flight_SetTokenNow:
  "single_flight c s \<Longrightarrow> single_flight c (react (SetTokenNow token save) s)"
  by (simp add: single_flight_now setToken_auth_fetched)


lemma refresh_calls_sent:
  "refresh_calls (sent rq w) =
     refresh_calls w + (if url rq = strip_slash (iamBaseUrl (auth w)) @ ''/api/v1/auth/tokens/refresh'' then 1 else 0)"
  by (simp add: refresh_calls_def sent_def)

lemma returned_ok_append: "returned_ok ps r \<Longrightarrow> returned_ok (ps @ qs) r"
  by (auto simp add: returned_ok_def nth_append split: option.splits)

lemma awaiting_ok_append: "awaiting_ok m marker ps a \<Longrightarrow> \<not> snd (snd a) \<Longrightarrow> awaiting_ok m' marker' (ps @ qs) a"
  by (auto simp add: awaiting_ok_def)

lemma no_running_unmarked:
  "single_flight c s \<Longrightarrow> \<not> refreshPromise (auth (now s)) \<Longrightarrow> running s = []"
  by (cases "running s") (auto simp add: single_flight_def running_ok_def)

lemma no_owner_unmarked:
  assumes "single_flight c s" and "\<not> refreshPromise (auth (now s))"
  shows "list_all (\<lambda>a. \<not> snd (snd a)) (awaiting s)"
  using assms by (auto simp add: single_flight_def awaiting_ok_def list_all_iff split: if_splits)

lemma all_settled_unmarked:
  assumes "single_flight c s" and "\<not> refreshPromise (auth (now s))" and "k < length (promises s)"
  shows "promises s ! k \<noteq> Unsettled"
  using assms no_running_unmarked [OF assms(1,2)] by (auto simp add: single_flight_def)

lemma single_flight_Call:
  assumes "single_flight c s"
  shows "single_flight c (react (Call i) s)"
proof (cases "truthy (refreshToken (auth (now s)))")
  case False
  with assms show ?thesis
    by (simp add: single_flight_def returned_ok_def)
next
  case True
  show ?thesis
  proof (cases "refreshPromise (auth (now s))")
    case marked: True
    with True assms show ?thesis
      by (simp add: single_flight_def awaiting_ok_def)
  next
    case unmarked: False
    define k where "k = length (promises s)"
    have r: "running s = []" using assms unmarked by (rule no_running_unmarked)
    have o: "list_all (\<lambda>a. \<not> snd (snd a)) (awaiting s)" using assms unmarked by (rule no_owner_unmarked)
    have settled: "\<And>j. j < length (promises s) \<Longrightarrow> promises s ! j \<noteq> Unsettled"
      using all_settled_unmarked [OF assms unmarked] by blast
    have 1: "list_all (returned_ok (promises s @ [Unsettled])) (returned s)"
      using assms by (auto simp add: single_flight_def list_all_iff intro: returned_ok_append)
    have 2: "list_all (awaiting_ok k True (promises s @ [Unsettled])) (awaiting s)"
      using assms o by (auto simp add: single_flight_def list_all_iff intro: awaiting_ok_append)
    have 3: "filter (\<lambda>a. snd (snd a)) (awaiting s) = []"
      using o by (auto simp add: list_all_iff filter_empty_conv)
    have 4: "refresh_calls ((sent (refresh_request (now s)) (now s))\<lparr>auth := (auth (now s))\<lparr>refreshPromise := True\<rparr>\<rparr>)
           = c + length (promises s) + 1"
      using assms refresh_calls_sent [of "refresh_request (now s)" "now s"]
        refresh_calls_cong [of "(sent (refresh_request (now s)) (now s))\<lparr>auth := (auth (now s))\<lparr>refreshPromise := True\<rparr>\<rparr>"
          "sent (refresh_request (now s)) (now s)"]
      by (simp add: single_flight_def url_refresh_request sent_def)
    have 5: "\<forall>j < Suc (length (promises s)). (promises s @ [Unsettled]) ! j = Unsettled \<longrightarrow> j = length (promises s)"
      using settled by (auto simp add: nth_append less_Suc_eq)
    from True unmarked r 1 2 3 4 5 show ?thesis
      by (simp add: single_flight_def running_ok_def awaiting_ok_def k_def)
  qed
qed


lemma running_cases:
  assumes "single_flight c s"
  shows "running s = [] \<or>
         (\<exists>susp. running s = [(marked s, susp)] \<and> refreshPromise (auth (now s)) \<and>
            marked s < length (promises s) \<and> promises s ! marked s = Unsettled)"
proof (cases "running s")
  case Nil
  then show ?thesis by simp
next
  case (Cons r rs)
  with assms have "rs = []" by (simp add: single_flight_def)
  with Cons assms show ?thesis
    by (cases r) (auto simp add: single_flight_def running_ok_def)
qed

lemma returned_ok_settle:
  assumes "returned_ok ps r" and "ps ! k = Unsettled"
  shows "returned_ok (ps[k := Fulfilled b]) r"
proof (cases "fst (snd r)")
  case None
  with assms show ?thesis by (simp add: returned_ok_def)
next
  case (Some a)
  with assms have "a \<noteq> k" by (auto simp add: returned_ok_def)
  with Some assms show ?thesis by (simp add: returned_ok_def)
qed

lemma awaiting_ok_update [simp]: "awaiting_ok m marker (ps[k := p]) = awaiting_ok m marker ps"
  by (rule ext) (simp add: awaiting_ok_def)

lemma single_flight_settle:
  assumes inv: "single_flight c s" and r: "running s = [(k, susp)]"
    and w': "refreshPromise (auth w') = refreshPromise (auth (now s))"
      "iamBaseUrl (auth w') = iamBaseUrl (auth (now s))" "fetched w' = fetched (now s)"
  shows "single_flight c (settle k b (s\<lparr>now := w'\<rparr>))"
proof -
  from running_cases [OF inv] r have k: "k = marked s" "k < length (promises s)" "promises s ! k = Unsettled"
    by auto
  have 1: "list_all (returned_ok ((promises s)[k := Fulfilled b])) (returned s)"
    using inv k by (auto simp add: single_flight_def list_all_iff intro: returned_ok_settle)
  have 2: "\<forall>j < length (promises s). (promises s)[k := Fulfilled b] ! j \<noteq> Unsettled"
  proof (intro allI impI)
    fix j assume j: "j < length (promises s)"
    show "(promises s)[k := Fulfilled b] ! j \<noteq> Unsettled"
    proof (cases "j = k")
      case True
      with k show ?thesis by simp
    next
      case False
      with inv r j have "promises s ! j \<noteq> Unsettled" by (auto simp add: single_flight_def)
      with False show ?thesis by simp
    qed
  qed
  have 3: "refresh_calls w' = c + length (promises s)"
    using inv w' refresh_calls_cong [of w' "now s"] by (simp add: single_flight_def)
  from inv r w' 1 2 3 show ?thesis
    by (simp add: single_flight_def settle_def awaiting_ok_def)
qed

lemma single_flight_caught:
  assumes "single_flight c s" and "running s = [(k, susp)]"
    and "refreshPromise (auth w') = refreshPromise (auth (now s))"
      "iamBaseUrl (auth w') = iamBaseUrl (auth (now s))" "fetched w' = fetched (now s)"
  shows "single_flight c (caught k (s\<lparr>now := w'\<rparr>))"
proof -
  have "caught k (s\<lparr>now := w'\<rparr>) = settle k False (s\<lparr>now := clearAuthState w'\<rparr>)"
    by (simp add: caught_def)
  moreover have "single_flight c (settle k False (s\<lparr>now := clearAuthState w'\<rparr>))"
    using assms(3-5) by (intro single_flight_settle [OF assms(1,2)]) simp_all
  ultimately show ?thesis by simp
qed

lemma single_flight_continue:
  assumes inv: "single_flight c s" and r: "running s = [(k, susp)]"
    and w': "refreshPromise (auth w') = refreshPromise (auth (now s))"
      "iamBaseUrl (auth w') = iamBaseUrl (auth (now s))" "fetched w' = fetched (now s)"
  shows "single_flight c (s\<lparr>now := sent (me_request w') w',
           running := map (\<lambda>r. if fst r = k then (k, susp') else r) (running s)\<rparr>)"
proof -
  have "refresh_calls (sent (me_request w') w') = refresh_calls w'"
    by (simp add: refresh_calls_sent url_me_request)
  also have "\<dots> = c + length (promises s)"
    using inv w' refresh_calls_cong [of w' "now s"] by (simp add: single_flight_def)
  finally have 1: "refresh_calls (sent (me_request w') w') = c + length (promises s)" .
  have 2: "auth (sent (me_request w') w') = auth w'" by (simp add: sent_def)
  from running_cases [OF inv] r
  have k: "k = marked s" "refreshPromise (auth (now s))" "marked s < length (promises s)"
    "promises s ! marked s = Unsettled"
    by auto
  have 3: "j = marked s" if "j < length (promises s)" and "promises s ! j = Unsettled" for j
  proof -
    from inv that have "j \<in> fst ` set (running s)" by (simp add: single_flight_def)
    with r k(1) show ?thesis by simp
  qed
  have 4: "list_all (awaiting_ok (marked s) True (promises s)) (awaiting s)"
    using inv k by (simp add: single_flight_def)
  have 5: "list_all (returned_ok (promises s)) (returned s)"
    and 6: "length (filter (\<lambda>a. snd (snd a)) (awaiting s)) \<le> 1"
    using inv by (simp_all add: single_flight_def)
  have 7: "refreshPromise (auth w')" using w' k by simp
  show ?thesis
    unfolding single_flight_def
    apply (intro conjI)
    subgoal by (simp add: r k running_ok_def 7 2)
    subgoal by (simp add: r)
    subgoal using 3 by (auto simp add: r k(1))
    subgoal by (simp add: 5)
    subgoal by (simp add: 1)
    subgoal by (simp add: 2 7 4)
    subgoal using 6 by simp
    subgoal by (simp add: k)
    done
qed

lemma single_flight_Reply:
  assumes inv: "single_flight c s"
  shows "single_flight c (react (Reply k answer) s)"
proof (cases "map_of (running s) k")
  case None
  with inv show ?thesis by simp
next
  case (Some susp)
  with running_cases [OF inv] have r: "running s = [(k, susp)]"
    by (auto split: if_splits)
  have same: "s\<lparr>now := now s\<rparr> = s" by simp
  show ?thesis
  proof (cases susp)
    case AtTokens
    show ?thesis
    proof (cases "resolved answer")
      case None
      with Some AtTokens single_flight_caught [OF inv r, of "now s"] show ?thesis by (simp add: same)
    next
      case tr: (Some tokenResponse)
      show ?thesis
      proof (cases "get_prop tokenResponse ''accessToken''")
        case (Inl e)
        with Some AtTokens tr single_flight_caught [OF inv r, of "now s"] show ?thesis by (simp add: same)
      next
        case token: (Inr token)
        show ?thesis
        proof (cases "get_prop tokenResponse ''refreshToken''")
          case (Inl e)
          with Some AtTokens tr token
            single_flight_caught [OF inv r, of "(now s)\<lparr>auth := (auth (now s))\<lparr>accessToken := token\<rparr>\<rparr>"]
          show ?thesis by simp
        next
          case (Inr rt)
          with Some AtTokens tr token
            single_flight_continue [OF inv r,
              of "(now s)\<lparr>auth := (auth (now s))\<lparr>accessToken := token, refreshToken := rt\<rparr>\<rparr>" "AtUser token rt"]
          show ?thesis by (simp add: Let_def)
        qed
      qed
    qed
  next
    case (AtUser token rt)
    show ?thesis
    proof (cases "resolved answer")
      case None
      with Some AtUser single_flight_caught [OF inv r, of "now s"] show ?thesis by (simp add: same)
    next
      case (Some user)
      with \<open>map_of (running s) k = Some susp\<close> AtUser
        single_flight_settle [OF inv r, of "setAuthState user token rt (now s)" True]
      show ?thesis by simp
    qed
  qed
qed

lemma filter_remove1_single:
  "length (filter P xs) \<le> 1 \<Longrightarrow> x \<in> set xs \<Longrightarrow> P x \<Longrightarrow> filter P (remove1 x xs) = []"
proof (induction xs)
  case Nil
  then show ?case by simp
next
  case (Cons y ys)
  show ?case
  proof (cases "x = y")
    case True
    with Cons.prems have "length (filter P ys) = 0" by simp
    with True show ?thesis by simp
  next
    case False
    with Cons.prems have x: "x \<in> set ys" by simp
    have "\<not> P y"
    proof
      assume "P y"
      with Cons.prems(1) have "filter P ys = []" by simp
      with x Cons.prems(3) show False by (simp add: filter_empty_conv)
    qed
    moreover from this Cons.prems(1) have "length (filter P ys) \<le> 1" by simp
    ultimately show ?thesis using False x Cons.prems(3) Cons.IH by simp
  qed
qed

lemma length_filter_remove1: "length (filter P (remove1 x xs)) \<le> length (filter P xs)"
  by (induction xs) auto

lemma find_in_set: "find P xs = Some x \<Longrightarrow> x \<in> set xs \<and> P x"
  by (induction xs) (auto split: if_splits)

lemma single_flightD:
  assumes "single_flight c s"
  shows "list_all (running_ok (marked s) (refreshPromise (auth (now s))) (promises s)) (running s)"
    and "length (running s) \<le> 1"
    and "\<forall>k < length (promises s). promises s ! k = Unsettled \<longrightarrow> k \<in> fst ` set (running s)"
    and "list_all (returned_ok (promises s)) (returned s)"
    and "refresh_calls (now s) = c + length (promises s)"
    and "list_all (awaiting_ok (marked s) (refreshPromise (auth (now s))) (promises s)) (awaiting s)"
    and "length (filter (\<lambda>a. snd (snd a)) (awaiting s)) \<le> 1"
    and "if refreshPromise (auth (now s)) then marked s < length (promises s) else True"
proof -
  note a1 = assms [unfolded single_flight_def]
  note a2 = a1 [THEN conjunct2]
  note a3 = a2 [THEN conjunct2]
  note a4 = a3 [THEN conjunct2]
  note a5 = a4 [THEN conjunct2]
  note a6 = a5 [THEN conjunct2]
  note a7 = a6 [THEN conjunct2]
  show "list_all (running_ok (marked s) (refreshPromise (auth (now s))) (promises s)) (running s)"
    by (rule a1 [THEN conjunct1])
  show "length (running s) \<le> 1"
    by (rule a2 [THEN conjunct1])
  show "\<forall>k < length (promises s). promises s ! k = Unsettled \<longrightarrow> k \<in> fst ` set (running s)"
    by (rule a3 [THEN conjunct1])
  show "list_all (returned_ok (promises s)) (returned s)"
    by (rule a4 [THEN conjunct1])
  show "refresh_calls (now s) = c + length (promises s)"
    by (rule a5 [THEN conjunct1])
  show "list_all (awaiting_ok (marked s) (refreshPromise (auth (now s))) (promises s)) (awaiting s)"
    by (rule a6 [THEN conjunct1])
  show "length (filter (\<lambda>a. snd (snd a)) (awaiting s)) \<le> 1"
    by (rule a7 [THEN conjunct1])
  show "if refreshPromise (auth (now s)) then marked s < length (promises s) else True"
    by (rule a7 [THEN conjunct2])
qed

lemma single_flight_Resume:
  assumes inv: "single_flight c s"
  shows "single_flight c (react (Resume i) s)"
proof (cases "find (\<lambda>a. fst a = i) (awaiting s)")
  case None
  with inv show ?thesis by simp
next
  case (Some a)
  obtain j k owner where a: "a = (j, k, owner)" by (cases a)
  from Some a have mem: "(j, k, owner) \<in> set (awaiting s)" by (auto dest: find_in_set)
  note d = single_flightD [OF inv]
  show ?thesis
  proof (cases "k < length (promises s)")
    case False
    with Some a inv show ?thesis by simp
  next
    case k: True
    show ?thesis
    proof (cases "promises s ! k")
      case Unsettled
      with Some a k inv show ?thesis by simp
    next
      case (Fulfilled b)
      have ret: "list_all (returned_ok (promises s)) (returned s @ [(i, Some k, b)])"
        using d(4) k Fulfilled by (simp add: returned_ok_def)
      have sub: "set (remove1 (j, k, owner) (awaiting s)) \<subseteq> set (awaiting s)"
        by (rule set_remove1_subset)
      show ?thesis
      proof (cases owner)
        case False
        have aw: "list_all (awaiting_ok (marked s) (refreshPromise (auth (now s))) (promises s))
                (remove1 (j, k, owner) (awaiting s))"
          using d(6) sub unfolding list_all_iff by blast
        have one: "length (filter (\<lambda>a. snd (snd a)) (remove1 (j, k, owner) (awaiting s))) \<le> 1"
          using d(7) length_filter_remove1 [of "\<lambda>a. snd (snd a)" "(j, k, owner)" "awaiting s"]
          by simp
        have "react (Resume i) s =
                s\<lparr>awaiting := remove1 (j, k, owner) (awaiting s), returned := returned s @ [(i, Some k, b)]\<rparr>"
          using Some a k Fulfilled False by simp
        moreover have "single_flight c
                (s\<lparr>awaiting := remove1 (j, k, owner) (awaiting s), returned := returned s @ [(i, Some k, b)]\<rparr>)"
          unfolding single_flight_def
          apply (intro conjI)
          subgoal using d(1) by simp
          subgoal using d(2) by simp
          subgoal using d(3) by simp
          subgoal using ret by simp
          subgoal using d(5) by simp
          subgoal using aw by simp
          subgoal using one by simp
          subgoal using d(8) by simp
          done
        ultimately show ?thesis by simp
      next
        case True
        from d(6) mem have "awaiting_ok (marked s) (refreshPromise (auth (now s))) (promises s) (j, k, owner)"
          unfolding list_all_iff by blast
        with True have m: "marked s = k" "refreshPromise (auth (now s))"
          by (simp_all add: awaiting_ok_def)
        have r: "running s = []"
        proof (rule ccontr)
          assume "running s \<noteq> []"
          with running_cases [OF inv] have "promises s ! marked s = Unsettled" by blast
          with m(1) Fulfilled show False by simp
        qed
        have none: "filter (\<lambda>a. snd (snd a)) (remove1 (j, k, owner) (awaiting s)) = []"
        proof (rule filter_remove1_single)
          show "length (filter (\<lambda>a. snd (snd a)) (awaiting s)) \<le> 1" by (rule d(7))
          show "(j, k, owner) \<in> set (awaiting s)" by (rule mem)
          show "snd (snd (j, k, owner))" using True by simp
        qed
        have aw: "list_all (awaiting_ok (marked s) False (promises s)) (remove1 (j, k, owner) (awaiting s))"
          unfolding list_all_iff
        proof
          fix x assume x: "x \<in> set (remove1 (j, k, owner) (awaiting s))"
          with none have "\<not> snd (snd x)" by (simp add: filter_empty_conv)
          moreover from x sub d(6) have "awaiting_ok (marked s) (refreshPromise (auth (now s))) (promises s) x"
            unfolding list_all_iff by blast
          ultimately show "awaiting_ok (marked s) False (promises s) x"
            by (simp add: awaiting_ok_def)
        qed
        define w' where "w' = (now s)\<lparr>auth := (auth (now s))\<lparr>refreshPromise := False\<rparr>\<rparr>"
        have rc: "refresh_calls w' = c + length (promises s)"
          using d(5) refresh_calls_cong [of w' "now s"] by (simp add: w'_def)
        have off: "\<not> refreshPromise (auth w')" by (simp add: w'_def)
        have "react (Resume i) s =
                s\<lparr>awaiting := remove1 (j, k, owner) (awaiting s), returned := returned s @ [(i, Some k, b)],
                  now := w'\<rparr>"
          using Some a k Fulfilled True by (simp add: w'_def)
        moreover have "single_flight c
                (s\<lparr>awaiting := remove1 (j, k, owner) (awaiting s), returned := returned s @ [(i, Some k, b)],
                  now := w'\<rparr>)"
          unfolding single_flight_def
          apply (intro conjI)
          subgoal by (simp add: r)
          subgoal by (simp add: r)
          subgoal using d(3) by (auto simp add: r)
          subgoal using ret by simp
          subgoal using rc by simp
          subgoal using aw off by simp
          subgoal by (simp add: none)
          subgoal using off by simp
          done
        ultimately show ?thesis by simp
      qed
    qed
  qed
qed

lemma single_flight_react: "single_flight c s \<Longrightarrow> single_flight c (react e s)"
  by (cases e)
    (simp_all only: single_flight_Call single_flight_Reply single_flight_Resume
       single_flight_SignOutNow single_flight_SetTokenNow)

lemma single_flight_exec: "single_flight c s \<Longrightarrow> single_flight c (exec es s)"
  unfolding exec_def by (induction es arbitrary: s) (simp_all add: single_flight_react)

lemma length_filter_le_one:
  assumes "\<And>i j. i < length xs \<Longrightarrow> j < length xs \<Longrightarrow> P (xs ! i) \<Longrightarrow> P (xs ! j) \<Longrightarrow> i = j"
  shows "length (filter P xs) \<le> 1"
proof -
  have "card {i. i < length xs \<and> P (xs ! i)} \<le> 1"
  proof (cases "{i. i < length xs \<and> P (xs ! i)} = {}")
    case True
    then show ?thesis by (metis card.empty zero_le)
  next
    case False
    then obtain i where i: "i < length xs" "P (xs ! i)" by blast
    with assms have "{i. i < length xs \<and> P (xs ! i)} = {i}" by blast
    then show ?thesis by simp
  qed
  then show ?thesis by (simp add: length_filter_conv_card)
qed

lemma one_unsettled:
  assumes "single_flight c s"
  shows "length (filter (\<lambda>p. p = Unsettled) (promises s)) \<le> 1"
proof (rule length_filter_le_one)
  fix i j assume ij: "i < length (promises s)" "j < length (promises s)"
    "promises s ! i = Unsettled" "promises s ! j = Unsettled"
  note d = single_flightD [OF assms]
  from d(3) ij have "i \<in> fst ` set (running s)" "j \<in> fst ` set (running s)" by blast+
  with running_cases [OF assms] show "i = j" by auto
qed

lemma marker_of_unsettled:
  assumes "single_flight c s" and "k < length (promises s)" and "promises s ! k = Unsettled"
  shows "refreshPromise (auth (now s)) \<and> marked s = k"
proof -
  note d = single_flightD [OF assms(1)]
  from d(3) assms(2,3) have "k \<in> fst ` set (running s)" by blast
  with running_cases [OF assms(1)] show ?thesis by auto
qed

lemmas loop_defs = exec_def start_def sent_def settle_def caught_def refresh_request_def me_request_def
  resolved_def tokens_reply_def user_reply_def refresh_calls_def


lemma notify_one_network: "notify_one (w\<lparr>network := n\<rparr>) l = (notify_one w l)\<lparr>network := n\<rparr>"
  by (simp add: notify_one_def call_listener_def)

lemma foldl_notify_one_network:
  "foldl notify_one (w\<lparr>network := n\<rparr>) ls = (foldl notify_one w ls)\<lparr>network := n\<rparr>"
  by (induction ls arbitrary: w) (simp_all add: notify_one_network)

lemma notifyListeners_network: "notifyListeners (w\<lparr>network := n\<rparr>) = (notifyListeners w)\<lparr>network := n\<rparr>"
  by (simp add: notifyListeners_def foldl_notify_one_network)

lemma removeFromStorage_network:
  "removeFromStorage (w\<lparr>network := n\<rparr>) = (removeFromStorage w)\<lparr>network := n\<rparr>"
  by (simp add: removeFromStorage_def split: option.splits sum.splits)

lemma saveToStorage_network: "saveToStorage (w\<lparr>network := n\<rparr>) = (saveToStorage w)\<lparr>network := n\<rparr>"
  by (simp add: saveToStorage_def split: option.splits sum.splits)

lemma network_auth_swap: "(w\<lparr>auth := a\<rparr>)\<lparr>network := n\<rparr> = (w\<lparr>network := n\<rparr>)\<lparr>auth := a\<rparr>"
  by (cases w) simp

lemma clearAuthState_network: "clearAuthState (w\<lparr>network := n\<rparr>) = (clearAuthState w)\<lparr>network := n\<rparr>"
proof -
  define a where "a = (auth w)\<lparr>currentUser := JNull, accessToken := JNull, refreshToken := JNull\<rparr>"
  have "clearAuthState (w\<lparr>network := n\<rparr>) = notifyListeners (removeFromStorage ((w\<lparr>auth := a\<rparr>)\<lparr>network := n\<rparr>))"
    by (simp add: clearAuthState_def a_def network_auth_swap)
  also have "\<dots> = (notifyListeners (removeFromStorage (w\<lparr>auth := a\<rparr>)))\<lparr>network := n\<rparr>"
    by (simp only: removeFromStorage_network notifyListeners_network)
  also have "\<dots> = (clearAuthState w)\<lparr>network := n\<rparr>"
    by (simp add: clearAuthState_def a_def)
  finally show ?thesis .
qed

lemma setAuthState_network:
  "setAuthState user token rt (w\<lparr>network := n\<rparr>) = (setAuthState user token rt w)\<lparr>network := n\<rparr>"
proof -
  define a where "a = (auth w)\<lparr>currentUser := user, accessToken := token, refreshToken := rt\<rparr>"
  have "setAuthState user token rt (w\<lparr>network := n\<rparr>) =
          notifyListeners (saveToStorage ((w\<lparr>auth := a\<rparr>)\<lparr>network := n\<rparr>))"
    by (simp add: setAuthState_def a_def network_auth_swap)
  also have "\<dots> = (notifyListeners (saveToStorage (w\<lparr>auth := a\<rparr>)))\<lparr>network := n\<rparr>"
    by (simp only: saveToStorage_network notifyListeners_network)
  also have "\<dots> = (setAuthState user token rt w)\<lparr>network := n\<rparr>"
    by (simp add: setAuthState_def a_def)
  finally show ?thesis .
qed


lemma plain_request_fails:
  assumes "onUnauthorized c = None" and "onError c = None"
    and "fetch (fetch_args c path options w) w = (answer, w1)" and "resolved answer = None"
  shows "\<exists>e. request c path options w = (Inl e, w1)"
proof -
  have "\<not> (\<exists>v. fst (request c path options w) = Inr v)"
    using plain_request_resolves [OF assms(1), of path options w] assms(3,4) by simp
  then obtain e where "fst (request c path options w) = Inl e"
    by (cases "fst (request c path options w)") auto
  moreover have "snd (request c path options w) = w1"
    using request_plain_world [OF assms(1,2), of path options w] assms(3) by simp
  ultimately show ?thesis by (auto simp add: prod_eq_iff)
qed

lemma plain_request_succeeds:
  assumes "onUnauthorized c = None" and "onError c = None"
    and "fetch (fetch_args c path options w) w = (answer, w1)" and "resolved answer = Some v"
  shows "request c path options w = (Inr v, w1)"
proof -
  have "fst (request c path options w) = Inr v"
    using plain_request_resolves [OF assms(1), of path options w v] assms(3,4) by simp
  moreover have "snd (request c path options w) = w1"
    using request_plain_world [OF assms(1,2), of path options w] assms(3) by simp
  ultimately show ?thesis by (auto simp add: prod_eq_iff)
qed


text \<open>
  C5, as the code has it. Take any run of calls of \<^verbatim>\<open>refreshSession\<close>, answers of
  the network, resumptions of callers, \<^verbatim>\<open>signOut\<close> and \<^verbatim>\<open>setToken\<close>, from a page
  where no refresh is pending. Then

  \<^item> every activation of \<^verbatim>\<open>doRefresh\<close> has made exactly one call to the refresh
    endpoint, and nothing else has called it;
  \<^item> at most one activation is pending;
  \<^item> while an activation is pending, \<^verbatim>\<open>this.refreshPromise\<close> holds its promise, and
    a call of \<^verbatim>\<open>refreshSession\<close> leaves the world as it is, so it makes no call to the
    network: when a refresh token is held the caller is handed the pending promise, when none
    is held the caller has false at once;
  \<^item> a caller that waits, waits for a promise that exists, and when it is resumed on a
    fulfilled promise it returns the value of that promise, the caller that started the
    activation having first assigned \<^verbatim>\<open>null\<close> to \<^verbatim>\<open>this.refreshPromise\<close>;
  \<^item> every caller that has returned after waiting for a promise received the boolean that
    promise was fulfilled with, and every caller that returned without waiting received false.
\<close>

theorem refreshSession_single_flight:
  assumes "\<not> refreshPromise (auth w)" and "s = exec es (start w)"
  shows "refresh_calls (now s) = refresh_calls w + length (promises s) \<and>
         length (filter (\<lambda>p. p = Unsettled) (promises s)) \<le> 1 \<and>
         (\<forall>k < length (promises s). promises s ! k = Unsettled \<longrightarrow>
            refreshPromise (auth (now s)) \<and> marked s = k \<and>
            react (Call i) s =
              (if truthy (refreshToken (auth (now s))) then s\<lparr>awaiting := awaiting s @ [(i, k, False)]\<rparr>
               else s\<lparr>returned := returned s @ [(i, None, False)]\<rparr>)) \<and>
         (\<forall>a \<in> set (awaiting s). fst (snd a) < length (promises s)) \<and>
         (\<forall>a b. find (\<lambda>a. fst a = i) (awaiting s) = Some a \<and> promises s ! fst (snd a) = Fulfilled b \<longrightarrow>
            returned (react (Resume i) s) = returned s @ [(i, Some (fst (snd a)), b)] \<and>
            promises (react (Resume i) s) = promises s \<and>
            refreshPromise (auth (now (react (Resume i) s))) =
              (refreshPromise (auth (now s)) \<and> \<not> snd (snd a))) \<and>
         (\<forall>r \<in> set (returned s).
            case fst (snd r) of
              None \<Rightarrow> \<not> snd (snd r)
            | Some k \<Rightarrow> k < length (promises s) \<and> promises s ! k = Fulfilled (snd (snd r)))"
proof -
  have inv: "single_flight (refresh_calls w) s"
    unfolding assms(2) using assms(1) by (intro single_flight_exec single_flight_start)
  note d = single_flightD [OF inv]
  have 1: "refresh_calls (now s) = refresh_calls w + length (promises s)"
    by (rule d(5))
  have 2: "length (filter (\<lambda>p. p = Unsettled) (promises s)) \<le> 1"
    by (rule one_unsettled [OF inv])
  have 3: "\<forall>k < length (promises s). promises s ! k = Unsettled \<longrightarrow>
            refreshPromise (auth (now s)) \<and> marked s = k \<and>
            react (Call i) s =
              (if truthy (refreshToken (auth (now s))) then s\<lparr>awaiting := awaiting s @ [(i, k, False)]\<rparr>
               else s\<lparr>returned := returned s @ [(i, None, False)]\<rparr>)"
  proof (intro allI impI)
    fix k assume "k < length (promises s)" and "promises s ! k = Unsettled"
    with marker_of_unsettled [OF inv] have "refreshPromise (auth (now s))" "marked s = k"
      by blast+
    then show "refreshPromise (auth (now s)) \<and> marked s = k \<and>
            react (Call i) s =
              (if truthy (refreshToken (auth (now s))) then s\<lparr>awaiting := awaiting s @ [(i, k, False)]\<rparr>
               else s\<lparr>returned := returned s @ [(i, None, False)]\<rparr>)"
      by simp
  qed
  have 4: "\<forall>a \<in> set (awaiting s). fst (snd a) < length (promises s)"
    using d(6) by (simp add: list_all_iff awaiting_ok_def)
  have 5: "\<forall>a b. find (\<lambda>a. fst a = i) (awaiting s) = Some a \<and> promises s ! fst (snd a) = Fulfilled b \<longrightarrow>
            returned (react (Resume i) s) = returned s @ [(i, Some (fst (snd a)), b)] \<and>
            promises (react (Resume i) s) = promises s \<and>
            refreshPromise (auth (now (react (Resume i) s))) =
              (refreshPromise (auth (now s)) \<and> \<not> snd (snd a))"
  proof (intro allI impI)
    fix a b
    assume f: "find (\<lambda>a. fst a = i) (awaiting s) = Some a \<and> promises s ! fst (snd a) = Fulfilled b"
    obtain j k owner where a: "a = (j, k, owner)" by (cases a)
    from f have "a \<in> set (awaiting s)" by (auto dest: find_in_set)
    with 4 a have "k < length (promises s)" by auto
    with f a show "returned (react (Resume i) s) = returned s @ [(i, Some (fst (snd a)), b)] \<and>
            promises (react (Resume i) s) = promises s \<and>
            refreshPromise (auth (now (react (Resume i) s))) =
              (refreshPromise (auth (now s)) \<and> \<not> snd (snd a))"
      by simp
  qed
  have 6: "\<forall>r \<in> set (returned s).
            case fst (snd r) of
              None \<Rightarrow> \<not> snd (snd r)
            | Some k \<Rightarrow> k < length (promises s) \<and> promises s ! k = Fulfilled (snd (snd r))"
    using d(4) by (simp add: list_all_iff returned_ok_def)
  show ?thesis
    by (intro conjI) (rule 1 2 3 4 5 6)+
qed

text \<open>
  An example. Callers 1 and 2 call, the server answers twice, caller 1 is resumed and caller
  3 calls: the second activation is pending, caller 2 still waits for the first. A caller 4
  that calls now is handed the pending promise, and caller 2, resumed, returns true.
\<close>

theorem refreshSession_single_flight_witness:
  "\<not> refreshPromise (auth signed_in_world) \<and>
   promises (exec [Call 1, Call 2, Reply 0 tokens_reply, Reply 0 user_reply, Resume 1, Call 3]
               (start signed_in_world)) = [Fulfilled True, Unsettled] \<and>
   awaiting (exec [Call 1, Call 2, Reply 0 tokens_reply, Reply 0 user_reply, Resume 1, Call 3]
               (start signed_in_world)) = [(2, 0, False), (3, 1, True)] \<and>
   returned (exec [Call 1, Call 2, Reply 0 tokens_reply, Reply 0 user_reply, Resume 1, Call 3]
               (start signed_in_world)) = [(1, Some 0, True)] \<and>
   refresh_calls
     (now (exec [Call 1, Call 2, Reply 0 tokens_reply, Reply 0 user_reply, Resume 1, Call 3]
             (start signed_in_world))) = refresh_calls signed_in_world + 2 \<and>
   awaiting (react (Call 4)
      (exec [Call 1, Call 2, Reply 0 tokens_reply, Reply 0 user_reply, Resume 1, Call 3]
         (start signed_in_world))) = [(2, 0, False), (3, 1, True), (4, 1, False)] \<and>
   now (react (Call 4)
      (exec [Call 1, Call 2, Reply 0 tokens_reply, Reply 0 user_reply, Resume 1, Call 3]
         (start signed_in_world))) =
     now (exec [Call 1, Call 2, Reply 0 tokens_reply, Reply 0 user_reply, Resume 1, Call 3]
            (start signed_in_world)) \<and>
   returned (react (Resume 2)
      (exec [Call 1, Call 2, Reply 0 tokens_reply, Reply 0 user_reply, Resume 1, Call 3]
         (start signed_in_world))) = [(1, Some 0, True), (2, Some 0, True)]"
proof -
  define s where
    "s = exec [Call 1, Call 2, Reply 0 tokens_reply, Reply 0 user_reply, Resume 1, Call 3]
           (start signed_in_world)"
  have off: "\<not> refreshPromise (auth signed_in_world)"
    by (simp add: signed_in_world_value)
  have v: "promises s = [Fulfilled True, Unsettled]" "awaiting s = [(2, 0, False), (3, 1, True)]"
    "returned s = [(1, Some 0, True)]" "truthy (refreshToken (auth (now s)))"
    by (simp_all add: s_def loop_defs run_defs)
  note t = refreshSession_single_flight [OF off s_def]
  from t [of 4] have 1: "refresh_calls (now s) = refresh_calls signed_in_world + length (promises s)"
    by (rule conjunct1)
  from t [of 4] have "\<forall>k < length (promises s). promises s ! k = Unsettled \<longrightarrow>
            refreshPromise (auth (now s)) \<and> marked s = k \<and>
            react (Call 4) s =
              (if truthy (refreshToken (auth (now s))) then s\<lparr>awaiting := awaiting s @ [(4, k, False)]\<rparr>
               else s\<lparr>returned := returned s @ [(4, None, False)]\<rparr>)"
    by (elim conjE)
  then have "1 < length (promises s) \<and> promises s ! 1 = Unsettled \<longrightarrow>
            react (Call 4) s =
              (if truthy (refreshToken (auth (now s))) then s\<lparr>awaiting := awaiting s @ [(4, 1, False)]\<rparr>
               else s\<lparr>returned := returned s @ [(4, None, False)]\<rparr>)"
    by blast
  with v have 2: "react (Call 4) s = s\<lparr>awaiting := awaiting s @ [(4, 1, False)]\<rparr>"
    by simp
  from t [of 2] have "\<forall>a b. find (\<lambda>a. fst a = 2) (awaiting s) = Some a \<and> promises s ! fst (snd a) = Fulfilled b \<longrightarrow>
            returned (react (Resume 2) s) = returned s @ [(2, Some (fst (snd a)), b)] \<and>
            promises (react (Resume 2) s) = promises s \<and>
            refreshPromise (auth (now (react (Resume 2) s))) =
              (refreshPromise (auth (now s)) \<and> \<not> snd (snd a))"
    by (elim conjE)
  then have "find (\<lambda>a. fst a = 2) (awaiting s) = Some (2, 0, False) \<and>
             promises s ! fst (snd (2 :: nat, 0 :: nat, False)) = Fulfilled True \<longrightarrow>
            returned (react (Resume 2) s) = returned s @ [(2, Some (fst (snd (2 :: nat, 0 :: nat, False))), True)]"
    by blast
  with v have 3: "returned (react (Resume 2) s) = [(1, Some 0, True), (2, Some 0, True)]"
    by simp
  have "awaiting (react (Call 4) s) = [(2, 0, False), (3, 1, True), (4, 1, False)]"
    "now (react (Call 4) s) = now s"
    unfolding 2 by (simp_all add: v)
  with off v 1 3 show ?thesis
    unfolding s_def [symmetric] by simp
qed

text \<open>
  C5 as stated fails. \<^verbatim>\<open>signOut\<close> is synchronous and can run while a refresh is pending;
  it clears the refresh token and leaves \<^verbatim>\<open>this.refreshPromise\<close>. Caller 1 starts a
  refresh, \<^verbatim>\<open>signOut\<close> runs, and caller 2 calls \<^verbatim>\<open>refreshSession\<close> while the
  refresh is pending: caller 2 has false at once, and the pending refresh, once the server has
  answered, is fulfilled with true, which is what caller 1 receives.
\<close>

theorem refreshSession_single_flight_counterexample:
  "promises (exec [Call 1, SignOutNow] (start signed_in_world)) = [Unsettled] \<and>
   returned (exec [Call 1, SignOutNow, Call 2] (start signed_in_world)) = [(2, None, False)] \<and>
   promises (exec [Call 1, SignOutNow, Call 2, Reply 0 tokens_reply, Reply 0 user_reply, Resume 1]
               (start signed_in_world)) = [Fulfilled True] \<and>
   returned (exec [Call 1, SignOutNow, Call 2, Reply 0 tokens_reply, Reply 0 user_reply, Resume 1]
               (start signed_in_world)) = [(2, None, False), (1, Some 0, True)]"
  by (simp add: loop_defs run_defs)

text \<open>
  The two descriptions of a refresh agree. A call of \<^verbatim>\<open>refreshSession\<close> with which nothing
  overlaps, followed from \<^verbatim>\<open>await\<close> to \<^verbatim>\<open>await\<close> with the server's two answers,
  gives the caller the boolean that \<open>refreshSession\<close> run to its end gives with a
  network that has these two answers, and leaves the same world but for what is left of the
  network: the same module, storage, notifications and calls made.
\<close>

theorem refreshSession_alone:
  assumes off: "\<not> refreshPromise (auth w)" and held: "truthy (refreshToken (auth w))"
  shows "\<exists>b. fst (refreshSession (w\<lparr>network := [\<lambda>rq. a1, \<lambda>rq. a2]\<rparr>)) = Settled b \<and>
             returned (exec [Call i, Reply 0 a1, Reply 0 a2, Resume i] (start w)) = [(i, Some 0, b)] \<and>
             promises (exec [Call i, Reply 0 a1, Reply 0 a2, Resume i] (start w)) = [Fulfilled b] \<and>
             (snd (refreshSession (w\<lparr>network := [\<lambda>rq. a1, \<lambda>rq. a2]\<rparr>)))\<lparr>network := network w\<rparr> =
               now (exec [Call i, Reply 0 a1, Reply 0 a2, Resume i] (start w))"
proof -
  define w0 where "w0 = w\<lparr>network := [\<lambda>rq. a1, \<lambda>rq. a2]\<rparr>"
  define wm0 where "wm0 = w0\<lparr>auth := (auth w0)\<lparr>refreshPromise := True\<rparr>\<rparr>"
  define wm where "wm = (sent (refresh_request w) w)\<lparr>auth := (auth w)\<lparr>refreshPromise := True\<rparr>\<rparr>"
  define opts where "opts = no_options\<lparr>meth := Some POST, body := JObj [(''refreshToken'', refreshToken (auth wm0))]\<rparr>"
  define s1 where "s1 = react (Call i) (start w)"
  have s1: "s1 = \<lparr>now = wm, marked = 0, promises = [Unsettled], running = [(0, AtTokens)],
                  awaiting = [(i, 0, True)], returned = []\<rparr>"
    using off held by (simp add: s1_def start_def wm_def)
  have rq: "fetch_args (publicClient (auth wm0)) ''/api/v1/auth/tokens/refresh'' opts wm0 = refresh_request w"
    by (simp add: refresh_request_def fetch_args_def opts_def wm0_def w0_def Let_def)
  have f1: "fetch (fetch_args (publicClient (auth wm0)) ''/api/v1/auth/tokens/refresh'' opts wm0) wm0 =
              (a1, wm\<lparr>network := [\<lambda>rq. a2]\<rparr>)"
    unfolding rq by (simp add: fetch_def wm0_def w0_def wm_def sent_def)
  have seq: "refreshSession w0 =
               (case doRefresh wm0 of (b, w1) \<Rightarrow> (Settled b, w1\<lparr>auth := (auth w1)\<lparr>refreshPromise := False\<rparr>\<rparr>))"
    using off held by (simp add: refreshSession_def w0_def wm0_def)
  have ex: "exec [Call i, Reply 0 a1, Reply 0 a2, Resume i] (start w) =
              react (Resume i) (react (Reply 0 a2) (react (Reply 0 a1) s1))"
    by (simp add: exec_def s1_def)
  have marker: "refreshPromise (auth wm)" "network wm = network w"
    by (simp_all add: wm_def sent_def)
  show ?thesis
  proof (cases "resolved a1")
    case None
    from plain_request_fails [OF _ _ f1 None] obtain e where
      "request (publicClient (auth wm0)) ''/api/v1/auth/tokens/refresh'' opts wm0 = (Inl e, wm\<lparr>network := [\<lambda>rq. a2]\<rparr>)"
      by auto
    then have "doRefresh wm0 = (False, (clearAuthState wm)\<lparr>network := [\<lambda>rq. a2]\<rparr>)"
      by (simp add: doRefresh_def post_def opts_def clearAuthState_network)
    then have 1: "refreshSession w0 =
        (Settled False, ((clearAuthState wm)\<lparr>network := [\<lambda>rq. a2]\<rparr>)
           \<lparr>auth := (auth (clearAuthState wm))\<lparr>refreshPromise := False\<rparr>\<rparr>)"
      by (simp add: seq)
    have 2: "react (Resume i) (react (Reply 0 a2) (react (Reply 0 a1) s1)) =
               \<lparr>now = (clearAuthState wm)\<lparr>auth := (auth (clearAuthState wm))\<lparr>refreshPromise := False\<rparr>\<rparr>,
                marked = 0, promises = [Fulfilled False], running = [], awaiting = [],
                returned = [(i, Some 0, False)]\<rparr>"
      using None by (simp add: s1 caught_def settle_def)
    show ?thesis
      unfolding ex 2 w0_def [symmetric] 1 using marker
      by (intro exI [of _ False]) (simp add: network_auth_swap [symmetric])
  next
    case tr: (Some tr)
    from plain_request_succeeds [OF _ _ f1 tr] have p:
      "request (publicClient (auth wm0)) ''/api/v1/auth/tokens/refresh'' opts wm0 = (Inr tr, wm\<lparr>network := [\<lambda>rq. a2]\<rparr>)"
      by simp
    then have d: "doRefresh wm0 =
        (case install_tokens tr (wm\<lparr>network := [\<lambda>rq. a2]\<rparr>) of
           (Inl e, w2) \<Rightarrow> (False, clearAuthState w2)
         | (Inr user, w2) \<Rightarrow> (True, w2))"
      by (simp add: doRefresh_def post_def opts_def)
    show ?thesis
    proof (cases "get_prop tr ''accessToken''")
      case (Inl e)
      then have "doRefresh wm0 = (False, (clearAuthState wm)\<lparr>network := [\<lambda>rq. a2]\<rparr>)"
        by (simp add: d install_tokens_def clearAuthState_network)
      then have 1: "refreshSession w0 =
          (Settled False, ((clearAuthState wm)\<lparr>network := [\<lambda>rq. a2]\<rparr>)
             \<lparr>auth := (auth (clearAuthState wm))\<lparr>refreshPromise := False\<rparr>\<rparr>)"
        by (simp add: seq)
      have 2: "react (Resume i) (react (Reply 0 a2) (react (Reply 0 a1) s1)) =
                 \<lparr>now = (clearAuthState wm)\<lparr>auth := (auth (clearAuthState wm))\<lparr>refreshPromise := False\<rparr>\<rparr>,
                  marked = 0, promises = [Fulfilled False], running = [], awaiting = [],
                  returned = [(i, Some 0, False)]\<rparr>"
        using tr Inl by (simp add: s1 caught_def settle_def)
      show ?thesis
        unfolding ex 2 w0_def [symmetric] 1 using marker
        by (intro exI [of _ False]) (simp add: network_auth_swap [symmetric])
    next
      case token: (Inr token)
      define wt where "wt = wm\<lparr>auth := (auth wm)\<lparr>accessToken := token\<rparr>\<rparr>"
      show ?thesis
      proof (cases "get_prop tr ''refreshToken''")
        case (Inl e)
        then have "doRefresh wm0 = (False, (clearAuthState wt)\<lparr>network := [\<lambda>rq. a2]\<rparr>)"
          using token
          by (simp add: d install_tokens_def clearAuthState_network [symmetric] wt_def network_auth_swap)
        then have 1: "refreshSession w0 =
            (Settled False, ((clearAuthState wt)\<lparr>network := [\<lambda>rq. a2]\<rparr>)
               \<lparr>auth := (auth (clearAuthState wt))\<lparr>refreshPromise := False\<rparr>\<rparr>)"
          by (simp add: seq)
        have 2: "react (Resume i) (react (Reply 0 a2) (react (Reply 0 a1) s1)) =
                   \<lparr>now = (clearAuthState wt)\<lparr>auth := (auth (clearAuthState wt))\<lparr>refreshPromise := False\<rparr>\<rparr>,
                    marked = 0, promises = [Fulfilled False], running = [], awaiting = [],
                    returned = [(i, Some 0, False)]\<rparr>"
          using tr token Inl by (simp add: s1 caught_def settle_def wt_def)
        have "refreshPromise (auth wt)" "network wt = network w"
          using marker by (simp_all add: wt_def)
        then show ?thesis
          unfolding ex 2 w0_def [symmetric] 1
          by (intro exI [of _ False]) (simp add: network_auth_swap [symmetric])
      next
        case rt: (Inr rt)
        define w2 where "w2 = wm\<lparr>auth := (auth wm)\<lparr>accessToken := token, refreshToken := rt\<rparr>\<rparr>"
        define w3 where "w3 = sent (me_request w2) w2"
        define gopts where "gopts = no_options\<lparr>meth := Some GET, params := None\<rparr>"
        have m: "refreshPromise (auth w3)" "network w3 = network w"
          using marker by (simp_all add: w3_def w2_def sent_def)
        have rq2: "fetch_args (authedClient (auth (w2\<lparr>network := [\<lambda>rq. a2]\<rparr>))) ''/api/v1/auth/me'' gopts
                     (w2\<lparr>network := [\<lambda>rq. a2]\<rparr>) = me_request w2"
          by (simp add: me_request_def fetch_args_def gopts_def Let_def)
        have f2: "fetch (fetch_args (authedClient (auth (w2\<lparr>network := [\<lambda>rq. a2]\<rparr>))) ''/api/v1/auth/me'' gopts
                     (w2\<lparr>network := [\<lambda>rq. a2]\<rparr>)) (w2\<lparr>network := [\<lambda>rq. a2]\<rparr>) = (a2, w3\<lparr>network := []\<rparr>)"
          unfolding rq2 by (simp add: fetch_def w3_def sent_def)
        have it: "install_tokens tr (wm\<lparr>network := [\<lambda>rq. a2]\<rparr>) =
                    (case request (authedClient (auth (w2\<lparr>network := [\<lambda>rq. a2]\<rparr>))) ''/api/v1/auth/me'' gopts
                            (w2\<lparr>network := [\<lambda>rq. a2]\<rparr>) of
                       (Inl e, w3) \<Rightarrow> (Inl e, w3)
                     | (Inr user, w3) \<Rightarrow> (Inr user, setAuthState user token rt w3))"
          using token rt
          by (simp add: install_tokens_def get_def gopts_def w2_def network_auth_swap)
        have s3: "react (Reply 0 a1) s1 =
                    \<lparr>now = w3, marked = 0, promises = [Unsettled], running = [(0, AtUser token rt)],
                     awaiting = [(i, 0, True)], returned = []\<rparr>"
          using tr token rt by (simp add: s1 w3_def w2_def Let_def)
        show ?thesis
        proof (cases "resolved a2")
          case None
          from plain_request_fails [OF _ _ f2 None] obtain e where
            "request (authedClient (auth (w2\<lparr>network := [\<lambda>rq. a2]\<rparr>))) ''/api/v1/auth/me'' gopts
               (w2\<lparr>network := [\<lambda>rq. a2]\<rparr>) = (Inl e, w3\<lparr>network := []\<rparr>)"
            by auto
          then have "doRefresh wm0 = (False, (clearAuthState w3)\<lparr>network := []\<rparr>)"
            by (simp add: d it clearAuthState_network)
          then have 1: "refreshSession w0 =
              (Settled False, ((clearAuthState w3)\<lparr>network := []\<rparr>)
                 \<lparr>auth := (auth (clearAuthState w3))\<lparr>refreshPromise := False\<rparr>\<rparr>)"
            by (simp add: seq)
          have 2: "react (Resume i) (react (Reply 0 a2) (react (Reply 0 a1) s1)) =
                     \<lparr>now = (clearAuthState w3)\<lparr>auth := (auth (clearAuthState w3))\<lparr>refreshPromise := False\<rparr>\<rparr>,
                      marked = 0, promises = [Fulfilled False], running = [], awaiting = [],
                      returned = [(i, Some 0, False)]\<rparr>"
            unfolding s3 using None by (simp add: caught_def settle_def)
          show ?thesis
            unfolding ex 2 w0_def [symmetric] 1 using m
            by (intro exI [of _ False]) (simp add: network_auth_swap [symmetric])
        next
          case (Some user)
          from plain_request_succeeds [OF _ _ f2 Some] have
            "request (authedClient (auth (w2\<lparr>network := [\<lambda>rq. a2]\<rparr>))) ''/api/v1/auth/me'' gopts
               (w2\<lparr>network := [\<lambda>rq. a2]\<rparr>) = (Inr user, w3\<lparr>network := []\<rparr>)"
            by simp
          then have "doRefresh wm0 = (True, (setAuthState user token rt w3)\<lparr>network := []\<rparr>)"
            by (simp add: d it setAuthState_network)
          then have 1: "refreshSession w0 =
              (Settled True, ((setAuthState user token rt w3)\<lparr>network := []\<rparr>)
                 \<lparr>auth := (auth (setAuthState user token rt w3))\<lparr>refreshPromise := False\<rparr>\<rparr>)"
            by (simp add: seq)
          have 2: "react (Resume i) (react (Reply 0 a2) (react (Reply 0 a1) s1)) =
                     \<lparr>now = (setAuthState user token rt w3)
                              \<lparr>auth := (auth (setAuthState user token rt w3))\<lparr>refreshPromise := False\<rparr>\<rparr>,
                      marked = 0, promises = [Fulfilled True], running = [], awaiting = [],
                      returned = [(i, Some 0, True)]\<rparr>"
            unfolding s3 using Some by (simp add: settle_def)
          show ?thesis
            unfolding ex 2 w0_def [symmetric] 1 using m
            by (intro exI [of _ True]) (simp add: network_auth_swap [symmetric])
        qed
      qed
    qed
  qed
qed

theorem refreshSession_alone_witness:
  "\<not> refreshPromise (auth signed_in_world) \<and> truthy (refreshToken (auth signed_in_world)) \<and>
   fst (refreshSession (signed_in_world\<lparr>network := [\<lambda>rq. tokens_reply, \<lambda>rq. user_reply]\<rparr>)) = Settled True \<and>
   returned (exec [Call 1, Reply 0 tokens_reply, Reply 0 user_reply, Resume 1] (start signed_in_world)) =
     [(1, Some 0, True)]"
proof -
  have 1: "\<not> refreshPromise (auth signed_in_world)" and 2: "truthy (refreshToken (auth signed_in_world))"
    by (simp_all add: signed_in_world_value)
  have 3: "returned (exec [Call 1, Reply 0 tokens_reply, Reply 0 user_reply, Resume 1] (start signed_in_world)) =
             [(1, Some 0, True)]"
    by (simp add: loop_defs run_defs)
  from refreshSession_alone [OF 1 2, of tokens_reply user_reply 1] 3
  have "fst (refreshSession (signed_in_world\<lparr>network := [\<lambda>rq. tokens_reply, \<lambda>rq. user_reply]\<rparr>)) = Settled True"
    by auto
  with 1 2 3 show ?thesis by simp
qed

subsection \<open>Listeners\<close>

lemma notified_foldl_notify_one:
  "notified (foldl notify_one w ls) = notified w @ map (\<lambda>l. (l, currentUser (auth w))) ls"
  by (induction ls arbitrary: w) (simp_all add: notify_one_def call_listener_def)

lemma console_foldl_notify_one:
  "console (foldl notify_one w ls) =
     console w @ map ListenerError (filter (\<lambda>l. l \<in> set (throwing w)) ls)"
  by (induction ls arbitrary: w) (simp_all add: notify_one_def call_listener_def)

text \<open>
  Notifications. \<^verbatim>\<open>notifyListeners\<close> invokes every registered listener once,
  in the order of registration, with the current user, whether or not listeners throw; the
  errors of those that throw are written to the console, in order; nothing is propagated
  (the result is a world).
\<close>

theorem notifyListeners_reaches_all:
  "notified (notifyListeners w) = notified w @ map (\<lambda>l. (l, currentUser (auth w))) (listeners (auth w)) \<and>
   console (notifyListeners w) =
     console w @ map ListenerError (filter (\<lambda>l. l \<in> set (throwing w)) (listeners (auth w)))"
  by (simp add: notifyListeners_def notified_foldl_notify_one console_foldl_notify_one)

subsection \<open>The example scenarios of the specification\<close>

text \<open>After the sign-in of the example the module is authenticated as \<open>u1\<close> and the stored
  record is the Session; after \<^verbatim>\<open>signOut\<close> it is not authenticated and the record is gone.\<close>

theorem signIn_example:
  "isAuthenticated signed_in_world \<and> currentUser (auth signed_in_world) = example_user \<and>
   map_option (getItem ''mitra_auth_app'') (localStorage signed_in_world) =
     Some (Inr (Some (Json (session_record (auth signed_in_world))))) \<and>
   \<not> isAuthenticated (signOut None signed_in_world) \<and>
   map_option (getItem ''mitra_auth_app'') (localStorage (signOut None signed_in_world)) = Some (Inr None)"
  by (simp add: isAuthenticated_def run_defs)

text \<open>The query of \<^verbatim>\<open>{limit: 10, skip: undefined}\<close> has the entry \<^verbatim>\<open>limit=10\<close> and no
  \<^verbatim>\<open>skip\<close>.\<close>

theorem params_example:
  "search (fetch_args bare_client ''/api/v1/items''
            (no_options\<lparr>params := Some [(''limit'', JNum 10), (''skip'', JUndefined)]\<rparr>) empty_world) =
     [(''limit'', ''10'')]"
  by (simp add: fetch_args_def Let_def no_options_def show_int_def show_nat.simps digit_char_def
      own_order_def array_index_def is_digit_def)

section \<open>Where the code departs from the specification\<close>

text \<open>
  An error response whose body is the JSON text \<^verbatim>\<open>null\<close>: \<^verbatim>\<open>response.json()\<close>
  resolves with \<^verbatim>\<open>null\<close>, the \<^verbatim>\<open>catch\<close> that supplies \<^verbatim>\<open>{}\<close> does not run, and
  \<^verbatim>\<open>errorBody.message\<close> throws a \<^verbatim>\<open>TypeError\<close> before any \<^verbatim>\<open>MitraApiError\<close>
  exists.
\<close>

text \<open>
  C1 at such a response: a client without \<^verbatim>\<open>onUnauthorized\<close> receives status 401 with
  body \<^verbatim>\<open>null\<close>. One call is made, and the caller receives a \<^verbatim>\<open>TypeError\<close>, not
  an API error with status 401.
\<close>

theorem request_401_null_body:
  "fst (request bare_client ''/api/v1/items'' no_options
          (empty_world\<lparr>network := [answer_with 401 (Some JNull)]\<rparr>)) = Inl TypeError \<and>
   length (fetched (snd (request bare_client ''/api/v1/items'' no_options
          (empty_world\<lparr>network := [answer_with 401 (Some JNull)]\<rparr>)))) = 1"
  by (simp add: run_defs empty_world_def)

text \<open>
  C7 at such a response: a client with the global error hook receives status 500 with body
  \<^verbatim>\<open>null\<close>. The request fails with a \<^verbatim>\<open>TypeError\<close> and the hook is not invoked.
\<close>

theorem request_500_null_body:
  "fst (request hooked_client ''/api/v1/items'' no_options
          (empty_world\<lparr>network := [answer_with 500 (Some JNull)]\<rparr>)) = Inl TypeError \<and>
   reported (snd (request hooked_client ''/api/v1/items'' no_options
          (empty_world\<lparr>network := [answer_with 500 (Some JNull)]\<rparr>))) = []"
  by (simp add: run_defs empty_world_def)

text \<open>
  C6 at such a response: \<^verbatim>\<open>me\<close> of the signed-in module receives status 401 with body
  \<^verbatim>\<open>null\<close>. It returns \<^verbatim>\<open>null\<close> and the Session is not cleared.
\<close>

theorem me_401_null_body:
  "fst (me (signed_in_world\<lparr>network := [answer_with 401 (Some JNull)]\<rparr>)) = JNull \<and>
   currentUser (auth (snd (me (signed_in_world\<lparr>network := [answer_with 401 (Some JNull)]\<rparr>)))) = example_user \<and>
   accessToken (auth (snd (me (signed_in_world\<lparr>network := [answer_with 401 (Some JNull)]\<rparr>)))) = JStr ''t1'' \<and>
   refreshToken (auth (snd (me (signed_in_world\<lparr>network := [answer_with 401 (Some JNull)]\<rparr>)))) = JStr ''r1''"
  by (simp add: run_defs)

text \<open>
  C2: \<^verbatim>\<open>signIn\<close> on the fresh module, the token request answered with a token pair and
  the fetch of the current user with status 500. \<^verbatim>\<open>signIn\<close> fails with the API error,
  the user record is still \<^verbatim>\<open>null\<close>, and the access token and the refresh token are
  those of the failed sign-in.
\<close>

theorem signIn_failed_fetch_keeps_tokens:
  "(case signIn \<lparr>email = ''a@b.com'', password = ''pw''\<rparr>
           (fresh_world\<lparr>network := [answer_with 200 (Some example_tokens), answer_with 500 None]\<rparr>) of
      (r, w') \<Rightarrow>
        r = Inl (MitraApiError \<lparr>message = ''Request failed with status 500'', status = 500,
                                 code = JUndefined, details = JObj []\<rparr>) \<and>
        currentUser (auth w') = JNull \<and> accessToken (auth w') = JStr ''t1'' \<and>
        refreshToken (auth w') = JStr ''r1'')"
  by (simp add: run_defs show_nat.simps digit_char_def)

text \<open>
  C9: a listener that throws is subscribed to the fresh module. The immediate invocation in
  \<^verbatim>\<open>onAuthStateChange\<close> has no \<^verbatim>\<open>try\<close>: the error reaches the subscriber, nothing is
  written to the console, and the listener stays registered.
\<close>

theorem onAuthStateChange_throwing_listener:
  "(case onAuthStateChange 1 (fresh_world\<lparr>throwing := [1]\<rparr>) of
      (r, w') \<Rightarrow> r = Inl (ListenerError 1) \<and> console w' = [] \<and> listeners (auth w') = [1])"
  by (simp add: run_defs)

end
